theory Spec2Isabelle
  imports Complex_Main
begin

section \<open>Errors, strings and dictionaries\<close>

text \<open>
  Python floats are modelled as real numbers, datetimes as the seconds their wall clock
  reads after 1970-01-01 00:00:00, strings as ASCII character lists. Every exception
  the modelled code can raise is a value of \<open>error\<close>.
\<close>

datatype error_code = DATA_FETCH_FAILED | DATA_FETCH_NO_RESULTS | IF_EXECUTION_FAILED

datatype error =
    ValueError string
  | KeyError string
  | IndexError
  | KnownException error_code string
  | DataFetchError error_code string string

text \<open>\<open>str.upper()\<close> on ASCII letters.\<close>

definition upper_char :: "char \<Rightarrow> char" where
  "upper_char c =
     (let n = (of_char c :: nat)
      in if 97 \<le> n \<and> n \<le> 122
         then (case c of Char b0 b1 b2 b3 b4 b5 b6 b7 \<Rightarrow> Char b0 b1 b2 b3 b4 False b6 b7)
         else c)"

definition upper :: "string \<Rightarrow> string" where
  "upper s = map upper_char s"

text \<open>\<open>dict.get(key, default)\<close> and \<open>dict[key]\<close> on a dictionary literal.\<close>

definition dict_get :: "('k \<times> 'v) list \<Rightarrow> 'k \<Rightarrow> 'v \<Rightarrow> 'v" where
  "dict_get d k dflt = (case map_of d k of Some v \<Rightarrow> v | None \<Rightarrow> dflt)"

definition dict_item :: "(string \<times> 'v) list \<Rightarrow> string \<Rightarrow> error + 'v" where
  "dict_item d k = (case map_of d k of Some v \<Rightarrow> Inr v | None \<Rightarrow> Inl (KeyError k))"

section \<open>Resource model (schemas)\<close>

record resource =
  res_id :: string
  name :: "string option"
  energy_consumed :: "real list"
  carbon_operational :: "real list"
  carbon_embodied :: "real list"
  carbon_emitted :: "real list"
  time_points :: "real list"
  total_energy_consumed :: real
  total_carbon_operational :: real
  total_carbon_embodied :: real
  total_carbon_emitted :: real

record compute_resource = resource +
  cpu_energy :: "real list"
  memory_energy :: "real list"
  cpu_power :: "real list"
  requested_cpu :: "real list"
  cpu_util :: "real list"
  storage_capacity :: "real list"
  network_io :: "real list"
  requested_memory :: "real list"
  total_cpu_energy :: real
  total_memory_energy :: real
  carbon_intensity :: real
  pue :: real

record pod = compute_resource +
  app :: string
  paas :: string
  namespace :: string

datatype resource_cls = Application | Cluster

record group_resource = compute_resource +
  cls :: resource_cls
  pods :: "pod list"

record storage_resource = resource +
  storage_type :: string
  replication_type :: string
  size_gb :: real
  region :: "string option"
  subscription :: "string option"
  resource_group :: "string option"
  storage_carbon_intensity :: real
  storage_energy :: "real list"
  total_storage_energy :: real
  storage_embodied :: "real list"
  total_storage_embodied :: real
  duration_seconds :: int

text \<open>The pydantic constructors with the schema defaults.\<close>

definition Pod_new ::
  "string \<Rightarrow> string \<Rightarrow> string \<Rightarrow> string \<Rightarrow> string \<Rightarrow> real \<Rightarrow> real \<Rightarrow> real list \<Rightarrow> pod" where
  "Pod_new uid a p ns nm ci pu tps =
     \<lparr> res_id = uid, name = Some nm,
       energy_consumed = [], carbon_operational = [], carbon_embodied = [],
       carbon_emitted = [], time_points = tps,
       total_energy_consumed = 0, total_carbon_operational = 0,
       total_carbon_embodied = 0, total_carbon_emitted = 0,
       cpu_energy = [], memory_energy = [], cpu_power = [], requested_cpu = [],
       cpu_util = [], storage_capacity = [], network_io = [], requested_memory = [],
       total_cpu_energy = 0, total_memory_energy = 0, carbon_intensity = ci, pue = pu,
       app = a, paas = p, namespace = ns \<rparr>"

definition group_resource_new ::
  "resource_cls \<Rightarrow> string \<Rightarrow> string \<Rightarrow> pod list \<Rightarrow> real list \<Rightarrow> group_resource" where
  "group_resource_new c i nm ps tps =
     \<lparr> res_id = i, name = Some nm,
       energy_consumed = [], carbon_operational = [], carbon_embodied = [],
       carbon_emitted = [], time_points = tps,
       total_energy_consumed = 0, total_carbon_operational = 0,
       total_carbon_embodied = 0, total_carbon_emitted = 0,
       cpu_energy = [], memory_energy = [], cpu_power = [], requested_cpu = [],
       cpu_util = [], storage_capacity = [], network_io = [], requested_memory = [],
       total_cpu_energy = 0, total_memory_energy = 0, carbon_intensity = 0, pue = 1,
       cls = c, pods = ps \<rparr>"

definition StorageResource_new :: "string \<Rightarrow> string \<Rightarrow> string \<Rightarrow> real \<Rightarrow> storage_resource" where
  "StorageResource_new i st rt sz =
     \<lparr> res_id = i, name = None,
       energy_consumed = [], carbon_operational = [], carbon_embodied = [],
       carbon_emitted = [], time_points = [],
       total_energy_consumed = 0, total_carbon_operational = 0,
       total_carbon_embodied = 0, total_carbon_emitted = 0,
       storage_type = st, replication_type = rt, size_gb = sz,
       region = None, subscription = None, resource_group = None,
       storage_carbon_intensity = 0, storage_energy = [], total_storage_energy = 0,
       storage_embodied = [], total_storage_embodied = 0, duration_seconds = 86400 \<rparr>"

section \<open>Linear interpolation (\<open>numpy.interp\<close>)\<close>

text \<open>
  \<open>numpy.interp(x, xp, fp)\<close> for increasing sample points \<open>xp\<close>: left of the first
  point the first value, right of the last point the last value, on a sample point its
  value, between two sample points the line through them. Empty sample points and
  lists of different lengths raise \<open>ValueError\<close>.
\<close>

fun interp_segments :: "(real \<times> real) list \<Rightarrow> real \<Rightarrow> real" where
  "interp_segments [] x = 0"
| "interp_segments [(x0, y0)] x = y0"
| "interp_segments ((x0, y0) # (x1, y1) # ps) x =
     (if x < x1
      then (if x = x0 then y0 else (y1 - y0) / (x1 - x0) * (x - x0) + y0)
      else interp_segments ((x1, y1) # ps) x)"

definition interp_value :: "real list \<Rightarrow> real list \<Rightarrow> real \<Rightarrow> real" where
  "interp_value xp fp x =
     (if x < hd xp then hd fp
      else if last xp < x then last fp
      else interp_segments (zip xp fp) x)"

definition np_interp :: "real list \<Rightarrow> real list \<Rightarrow> real list \<Rightarrow> error + real list" where
  "np_interp xs xp fp =
     (if xp = [] then Inl (ValueError ''array of sample points is empty'')
      else if length xp \<noteq> length fp
      then Inl (ValueError ''fp and xp are not of the same length.'')
      else Inr (map (interp_value xp fp) xs))"

section \<open>Model graph nodes\<close>

text \<open>The evaluator's \<open>Multiply\<close> builtin: the product of the input parameters.\<close>

definition Multiply :: "real list \<Rightarrow> real" where
  "Multiply inputs = prod_list inputs"

subsection \<open>CPU chain: teads-curve, p-cpu, e-cpu\<close>

text \<open>The control points of \<open>TeadsCurve.__init__\<close>.\<close>

definition teads_x :: "real list" where
  "teads_x = [0, 10, 50, 100]"

definition teads_y :: "real list" where
  "teads_y = [0.12, 0.32, 0.75, 1.02]"

text \<open>\<open>TeadsCurve.fill_inputs\<close>: the timestamp and the capped utilisation in percent.\<close>

definition TeadsCurve_fill_inputs ::
  "'a compute_resource_scheme \<Rightarrow> nat \<Rightarrow> error + (real \<times> real)" where
  "TeadsCurve_fill_inputs cr time_index =
     (if time_index < length (time_points cr) \<and> time_index < length (cpu_util cr)
      then Inr (time_points cr ! time_index, min (cpu_util cr ! time_index * 100) 100)
      else Inl IndexError)"

text \<open>The teads-curve node: \<open>Interpolation\<close>, method linear, over the control points.\<close>

definition TeadsCurve :: "real \<Rightarrow> real" where
  "TeadsCurve cpu_utilization = interp_value teads_x teads_y cpu_utilization"

text \<open>\<open>PCpu\<close>: Multiply of tdp-ratio and thermal design power, divided by 1000.\<close>

definition PCpu :: "real \<Rightarrow> real \<Rightarrow> real" where
  "PCpu tdp_ratio thermal_design_power = Multiply [tdp_ratio, thermal_design_power] / 1000"

text \<open>\<open>ECpu\<close>: Multiply of cpu/power and duration, divided by 3600.\<close>

definition ECpu :: "real \<Rightarrow> real \<Rightarrow> real" where
  "ECpu cpu_pow duration = Multiply [cpu_pow, duration] / 3600"

text \<open>The three nodes in pipeline order at one time index: (tdp-ratio, cpu/power, cpu/energy).\<close>

definition cpu_chain ::
  "'a compute_resource_scheme \<Rightarrow> nat \<Rightarrow> real \<Rightarrow> real \<Rightarrow> error + (real \<times> real \<times> real)" where
  "cpu_chain cr time_index thermal_design_power duration =
     (case TeadsCurve_fill_inputs cr time_index of
        Inl e \<Rightarrow> Inl e
      | Inr (ts, u) \<Rightarrow>
          (let r = TeadsCurve u;
               p = PCpu r thermal_design_power;
               e = ECpu p duration
           in Inr (r, p, e)))"

subsection \<open>Storage power\<close>

definition STORAGE_POWER_COEFFICIENT_MAPPING :: "(string \<times> real) list" where
  "STORAGE_POWER_COEFFICIENT_MAPPING =
     [(''SSD'', 0.0000012), (''HDD'', 0.00000065), (''UNKNOWN'', 0.000000925)]"

definition STORAGE_REPLICATION_FACTORS :: "(string \<times> real) list" where
  "STORAGE_REPLICATION_FACTORS =
     [(''LRS'', 3), (''ZRS'', 3), (''GRS'', 6), (''RA_GRS'', 6), (''GZRS'', 6),
      (''RA_GZRS'', 6)]"

text \<open>
  \<open>PStorage.fill_inputs\<close>: the pair (storage/requested, power/coefficient). The time
  index is not read.
\<close>

definition PStorage_fill_inputs :: "storage_resource \<Rightarrow> nat \<Rightarrow> error + (real \<times> real)" where
  "PStorage_fill_inputs sr time_index =
     (case dict_item STORAGE_POWER_COEFFICIENT_MAPPING ''UNKNOWN'' of
        Inl e \<Rightarrow> Inl e
      | Inr unknown \<Rightarrow>
          (let power_coefficient =
                 dict_get STORAGE_POWER_COEFFICIENT_MAPPING (upper (storage_type sr)) unknown;
               replication_factor =
                 dict_get STORAGE_REPLICATION_FACTORS (upper (replication_type sr)) 1;
               effective_size = size_gb sr * replication_factor
           in Inr (effective_size, power_coefficient)))"

text \<open>The p-storage node: Multiply of storage/requested and power/coefficient.\<close>

definition PStorage :: "storage_resource \<Rightarrow> nat \<Rightarrow> error + real" where
  "PStorage sr time_index =
     (case PStorage_fill_inputs sr time_index of
        Inl e \<Rightarrow> Inl e
      | Inr (storage_requested, power_coefficient) \<Rightarrow>
          Inr (Multiply [storage_requested, power_coefficient]))"

section \<open>Carbon intensity of a cluster\<close>

definition ZONES :: "(string \<times> string) list" where
  "ZONES =
     [(''EUS'', ''eastus''), (''WUS'', ''westus''), (''NE'', ''northeurope''),
      (''EUN1'', ''northeurope''), (''IRL'', ''northeurope''), (''FC'', ''francecentral''),
      (''SA'', ''southeastasia''), (''GWC'', ''germanywestcentral''),
      (''ERD'', ''germanywestcentral''), (''MUC'', ''germanywestcentral''),
      (''CDF'', ''germanywestcentral''), (''CDFDEV'', ''germanywestcentral''),
      (''NLD'', ''westeurope''), (''WE'', ''westeurope''), (''NGI'', ''northeurope''),
      (''NET'', ''westeurope''), (''NCE'', ''francesouth'')]"

definition CARBON_INTENSITY_EUROPE :: real where
  "CARBON_INTENSITY_EUROPE = 281"

text \<open>
  The table of \<open>constants.py\<close>, each region with the numeric entries of its dictionary
  (the \<open>country\<close> entry, a string that is never read, is left out).
\<close>

definition REGION_TO_COUNTRY_CARBON_INTENSITY :: "(string \<times> (string \<times> real) list) list" where
  "REGION_TO_COUNTRY_CARBON_INTENSITY =
     [(''australiaeast'', [(''carbon_intensity'', 552)]),
      (''centralus'', [(''carbon_intensity'', 384)]),
      (''eastasia'', [(''carbon_intensity'', 560)]),
      (''eastus'', [(''carbon_intensity'', 384)]),
      (''eastus2'', [(''carbon_intensity'', 384)]),
      (''francecentral'', [(''carbon_intensity'', 44)]),
      (''francesouth'', [(''carbon'', 44)]),
      (''germanywestcentral'', [(''carbon_intensity'', 344)]),
      (''northcentralus'', [(''carbon_intensity'', 384)]),
      (''northeurope'', [(''carbon_intensity'', 280)]),
      (''southeastasia'', [(''carbon_intensity'', 499)]),
      (''swedencentral'', [(''carbon_intensity'', 36)]),
      (''uaenorth'', [(''carbon_intensity'', 493)]),
      (''uksouth'', [(''carbon_intensity'', 211)]),
      (''westeurope'', [(''carbon_intensity'', 253)]),
      (''westus'', [(''carbon_intensity'', 384)]),
      (''westus2'', [(''carbon_intensity'', 384)]),
      (''centralindia'', [(''carbon_intensity'', 708)])]"

text \<open>\<open>remove_unnecessary\<close>: the string without its digits.\<close>

definition is_digit :: "char \<Rightarrow> bool" where
  "is_digit c = (let n = (of_char c :: nat) in 48 \<le> n \<and> n \<le> 57)"

definition remove_unnecessary :: "string \<Rightarrow> string" where
  "remove_unnecessary s = filter (\<lambda>c. \<not> is_digit c) s"

text \<open>\<open>str.split(sep)\<close> for a one-character separator.\<close>

fun split_on :: "char \<Rightarrow> string \<Rightarrow> string list" where
  "split_on sep [] = [[]]"
| "split_on sep (c # cs) =
     (if c = sep then [] # split_on sep cs
      else (case split_on sep cs of
              [] \<Rightarrow> [[c]]
            | p # ps \<Rightarrow> (c # p) # ps))"

text \<open>The loop over the hyphen-separated parts: the zone of the first part in \<open>ZONES\<close>.\<close>

fun first_zone :: "string list \<Rightarrow> string option" where
  "first_zone [] = None"
| "first_zone (part # parts) =
     (case map_of ZONES (remove_unnecessary part) of
        Some z \<Rightarrow> Some z
      | None \<Rightarrow> first_zone parts)"

definition extract_zone_from_paas :: "string \<Rightarrow> string option" where
  "extract_zone_from_paas p =
     (case map_of ZONES (remove_unnecessary (upper p)) of
        Some z \<Rightarrow> Some z
      | None \<Rightarrow> first_zone (split_on (CHR ''-'') (upper p)))"

text \<open>
  \<open>calculate_ci\<close>: the zone is a string, or \<open>None\<close> when no zone was found; \<open>None\<close> is
  no key of the table.
\<close>

definition calculate_ci :: "string option \<Rightarrow> error + real" where
  "calculate_ci zone =
     (case zone of
        None \<Rightarrow> Inr CARBON_INTENSITY_EUROPE
      | Some z \<Rightarrow>
          (case map_of REGION_TO_COUNTRY_CARBON_INTENSITY z of
             Some entry \<Rightarrow> dict_item entry ''carbon_intensity''
           | None \<Rightarrow> Inr CARBON_INTENSITY_EUROPE))"

definition get_ci_from_paas :: "string \<Rightarrow> error + real" where
  "get_ci_from_paas p = calculate_ci (extract_zone_from_paas p)"

section \<open>Telemetry aligner (ArgosService)\<close>

definition PUE_AZURE :: real where
  "PUE_AZURE = 1185 / 1000"

datatype HardwareConsumptionType =
  REQUESTED_CORES | CPU_UTIL | REQUESTED_BYTES | STORAGE_CAPACITY_BYTES

text \<open>
  One element of the \<open>pod_data\<close> a query returns: the labels of \<open>data["metric"]\<close> and
  the \<open>[timestamp, value]\<close> pairs of \<open>data["values"]\<close>, the value already converted by
  \<open>float\<close>.
\<close>

record pod_series =
  uid :: string
  app_label :: string
  cluster_label :: string
  namespace_label :: string
  pod_label :: string
  data_values :: "(real \<times> real) list"

text \<open>
  A datetime is the number of seconds its wall clock reads after 1970-01-01 00:00:00.
  \<open>timestamp\<close> stands for \<open>datetime.timestamp()\<close>, the conversion to epoch seconds,
  which for a naive datetime is made in the local time zone of the process.

  \<open>interpolate_field_data\<close>: every desired timestamp is shifted by one hour
  (\<open>t + timedelta(hours=1)\<close>), then converted to epoch seconds, and \<open>numpy.interp\<close> is
  evaluated there on the raw series, whose time points are epoch seconds.
\<close>

definition interpolate_field_data ::
  "(real \<Rightarrow> real) \<Rightarrow> real list \<Rightarrow> real list \<Rightarrow> real list \<Rightarrow> error + real list" where
  "interpolate_field_data timestamp desired_ts pod_ts vals =
     np_interp (map (\<lambda>t. timestamp (t + 3600)) desired_ts) pod_ts vals"

text \<open>The pod telemetries: a dictionary from uid to Pod, in insertion order.\<close>

definition setdefault :: "(string \<times> 'v) list \<Rightarrow> string \<Rightarrow> 'v \<Rightarrow> (string \<times> 'v) list" where
  "setdefault d k v = (case map_of d k of None \<Rightarrow> d @ [(k, v)] | Some _ \<Rightarrow> d)"

definition modify_item :: "(string \<times> 'v) list \<Rightarrow> string \<Rightarrow> ('v \<Rightarrow> 'v) \<Rightarrow> (string \<times> 'v) list" where
  "modify_item d k f = map (\<lambda>(k', v). if k' = k then (k', f v) else (k', v)) d"

text \<open>The \<open>if\<close>/\<open>elif\<close> chain on the consumption type that stores the series on the pod.\<close>

fun store_series :: "HardwareConsumptionType \<Rightarrow> real list \<Rightarrow> pod \<Rightarrow> pod" where
  "store_series CPU_UTIL values_list p = p\<lparr>cpu_util := values_list\<rparr>"
| "store_series REQUESTED_CORES values_list p = p\<lparr>requested_cpu := values_list\<rparr>"
| "store_series REQUESTED_BYTES values_list p = p\<lparr>requested_memory := values_list\<rparr>"
| "store_series STORAGE_CAPACITY_BYTES values_list p = p\<lparr>storage_capacity := values_list\<rparr>"

text \<open>The body of the loop of \<open>parse_pod_data\<close> for one element of \<open>pod_data\<close>.\<close>

definition parse_pod_datum ::
  "(real \<Rightarrow> real) \<Rightarrow> real list \<Rightarrow> HardwareConsumptionType \<Rightarrow> (string \<times> pod) list \<Rightarrow> pod_series
     \<Rightarrow> error + (string \<times> pod) list" where
  "parse_pod_datum timestamp desired_timestamps consumption_type pod_telemetries data =
     (case get_ci_from_paas (cluster_label data) of
        Inl e \<Rightarrow> Inl e
      | Inr ci \<Rightarrow>
          (let telemetries = setdefault pod_telemetries (uid data)
                 (Pod_new (uid data) (app_label data) (cluster_label data)
                    (namespace_label data) (pod_label data) ci PUE_AZURE desired_timestamps);
               values_list = map snd (data_values data);
               raw_time_points = map fst (data_values data)
           in case (if length raw_time_points < length desired_timestamps
                    then interpolate_field_data timestamp desired_timestamps raw_time_points values_list
                    else Inr values_list) of
                Inl e \<Rightarrow> Inl e
              | Inr values_list' \<Rightarrow>
                  Inr (modify_item telemetries (uid data)
                         (store_series consumption_type values_list'))))"

fun parse_pod_data ::
  "(real \<Rightarrow> real) \<Rightarrow> pod_series list \<Rightarrow> (string \<times> pod) list \<Rightarrow> real list \<Rightarrow> HardwareConsumptionType
     \<Rightarrow> error + (string \<times> pod) list" where
  "parse_pod_data timestamp [] pod_telemetries desired_timestamps consumption_type = Inr pod_telemetries"
| "parse_pod_data timestamp (data # pod_data) pod_telemetries desired_timestamps consumption_type =
     (case parse_pod_datum timestamp desired_timestamps consumption_type pod_telemetries data of
        Inl e \<Rightarrow> Inl e
      | Inr telemetries \<Rightarrow>
          parse_pod_data timestamp pod_data telemetries desired_timestamps consumption_type)"

text \<open>\<open>str(idx)\<close> for a non-negative integer.\<close>

fun str_nat :: "nat \<Rightarrow> string" where
  "str_nat n =
     (if n < 10 then [''0123456789'' ! n]
      else str_nat (n div 10) @ [''0123456789'' ! (n mod 10)])"

declare str_nat.simps [simp del]

text \<open>
  \<open>np.sum(np.array(rows), axis=0).tolist()\<close> and \<open>np.mean(...)\<close>: rows of different
  lengths form no array. No rows give the scalar 0.0 in numpy, which is no list;
  \<open>split_pods_by_resource\<close> builds no empty group.
\<close>

definition np_sum_axis0 :: "real list list \<Rightarrow> error + real list" where
  "np_sum_axis0 rows =
     (case rows of
        [] \<Rightarrow> Inl (ValueError ''no rows'')
      | r # rs \<Rightarrow>
          if list_all (\<lambda>row. length row = length r) rs
          then Inr (foldl (\<lambda>acc row. map2 (+) acc row) r rs)
          else Inl (ValueError ''inhomogeneous shape''))"

definition np_mean_axis0 :: "real list list \<Rightarrow> error + real list" where
  "np_mean_axis0 rows =
     (case np_sum_axis0 rows of
        Inl e \<Rightarrow> Inl e
      | Inr col_sums \<Rightarrow> Inr (map (\<lambda>s. s / real (length rows)) col_sums))"

definition create_resource ::
  "resource_cls \<Rightarrow> string \<Rightarrow> pod list \<Rightarrow> nat \<Rightarrow> real list \<Rightarrow> error + group_resource" where
  "create_resource resource_cls resource_key ps idx desired_timestamps =
     (let resource = group_resource_new resource_cls (str_nat idx) resource_key ps
                       desired_timestamps
      in case np_sum_axis0 (map requested_cpu ps) of
           Inl e \<Rightarrow> Inl e
         | Inr rc \<Rightarrow>
             (case np_sum_axis0 (map requested_memory ps) of
                Inl e \<Rightarrow> Inl e
              | Inr rm \<Rightarrow>
                  (case np_mean_axis0 (map cpu_util ps) of
                     Inl e \<Rightarrow> Inl e
                   | Inr cu \<Rightarrow>
                       Inr (resource\<lparr>requested_cpu := rc, requested_memory := rm,
                                      cpu_util := cu\<rparr>))))"

text \<open>
  \<open>split_pods_by_resource\<close>: the groups dictionary in insertion order, then the
  factory on each group with its index.
\<close>

definition append_to_group :: "(string \<times> 'a list) list \<Rightarrow> string \<Rightarrow> 'a \<Rightarrow> (string \<times> 'a list) list" where
  "append_to_group groups k p =
     (case map_of groups k of
        None \<Rightarrow> groups @ [(k, [p])]
      | Some _ \<Rightarrow> modify_item groups k (\<lambda>g. g @ [p]))"

fun group_pods :: "('a \<Rightarrow> string) \<Rightarrow> 'a list \<Rightarrow> (string \<times> 'a list) list \<Rightarrow> (string \<times> 'a list) list" where
  "group_pods key [] groups = groups"
| "group_pods key (p # ps) groups = group_pods key ps (append_to_group groups (key p) p)"

fun build_resources ::
  "(string \<Rightarrow> 'a list \<Rightarrow> nat \<Rightarrow> error + 'r) \<Rightarrow> nat \<Rightarrow> (string \<times> 'a list) list \<Rightarrow> error + 'r list" where
  "build_resources factory idx [] = Inr []"
| "build_resources factory idx ((group_key, grp) # groups) =
     (case factory group_key grp idx of
        Inl e \<Rightarrow> Inl e
      | Inr r \<Rightarrow>
          (case build_resources factory (Suc idx) groups of
             Inl e \<Rightarrow> Inl e
           | Inr rs \<Rightarrow> Inr (r # rs)))"

definition split_pods_by_resource ::
  "'a list \<Rightarrow> ('a \<Rightarrow> string) \<Rightarrow> (string \<Rightarrow> 'a list \<Rightarrow> nat \<Rightarrow> error + 'r) \<Rightarrow> error + 'r list" where
  "split_pods_by_resource ps key factory = build_resources factory 0 (group_pods key ps [])"

text \<open>
  \<open>retrieve_telemetry_data\<close>. The queries are answered outside: for every cluster group
  \<open>responses\<close> gives, per consumption type, the \<open>pod_data\<close> or the exception that
  \<open>AppDao.exec_query\<close> raises. A \<open>DataFetchError\<close> skips the rest of the cluster group;
  any other exception leaves the call. \<open>desired_timestamps\<close> is the grid of
  \<open>get_timestamps\<close>, and \<open>applications\<close> the optional filter of the caller.
\<close>

fun is_DataFetchError :: "error \<Rightarrow> bool" where
  "is_DataFetchError (DataFetchError c s d) = True"
| "is_DataFetchError e = False"

definition tasks :: "HardwareConsumptionType list" where
  "tasks = [CPU_UTIL, REQUESTED_CORES, REQUESTED_BYTES]"

fun run_tasks ::
  "(real \<Rightarrow> real) \<Rightarrow> (HardwareConsumptionType \<Rightarrow> error + pod_series list) \<Rightarrow> real list
     \<Rightarrow> HardwareConsumptionType list \<Rightarrow> (string \<times> pod) list \<Rightarrow> error + (string \<times> pod) list" where
  "run_tasks timestamp exec_query desired_timestamps [] telemetries = Inr telemetries"
| "run_tasks timestamp exec_query desired_timestamps (consumption_type # rest) telemetries =
     (case exec_query consumption_type of
        Inl e \<Rightarrow> (if is_DataFetchError e then Inr telemetries else Inl e)
      | Inr pod_data \<Rightarrow>
          (case parse_pod_data timestamp pod_data telemetries desired_timestamps consumption_type of
             Inl e \<Rightarrow> Inl e
           | Inr telemetries' \<Rightarrow> run_tasks timestamp exec_query desired_timestamps rest telemetries'))"

fun retrieve_clusters ::
  "(real \<Rightarrow> real) \<Rightarrow> (HardwareConsumptionType \<Rightarrow> error + pod_series list) list \<Rightarrow> real list
     \<Rightarrow> (string \<times> pod) list \<Rightarrow> error + (string \<times> pod) list" where
  "retrieve_clusters timestamp [] desired_timestamps telemetries = Inr telemetries"
| "retrieve_clusters timestamp (exec_query # responses) desired_timestamps telemetries =
     (case run_tasks timestamp exec_query desired_timestamps tasks telemetries of
        Inl e \<Rightarrow> Inl e
      | Inr telemetries' \<Rightarrow> retrieve_clusters timestamp responses desired_timestamps telemetries')"

text \<open>
  Truth value of an optional list argument (\<open>if applications:\<close>): \<open>None\<close> and the
  empty list are falsy.
\<close>

definition truthy :: "'a list option \<Rightarrow> bool" where
  "truthy xs \<longleftrightarrow> xs \<noteq> None \<and> xs \<noteq> Some []"

text \<open>The filter after the retrieval: an empty series is falsy.\<close>

definition reports_all_metrics :: "pod \<Rightarrow> bool" where
  "reports_all_metrics p \<longleftrightarrow> requested_cpu p \<noteq> [] \<and> requested_memory p \<noteq> [] \<and> cpu_util p \<noteq> []"

definition filter_and_group ::
  "(string \<times> pod) list \<Rightarrow> string list option \<Rightarrow> real list \<Rightarrow> error + group_resource list" where
  "filter_and_group interp_pod_telemetries applications desired_timestamps =
     (let pod_telemetries = filter reports_all_metrics (map snd interp_pod_telemetries)
      in if pod_telemetries = []
         then Inl (DataFetchError DATA_FETCH_NO_RESULTS ''ArgosService''
                     ''no pods found after filtering telemetry data'')
         else if truthy applications
         then split_pods_by_resource pod_telemetries app
                (\<lambda>key ps idx. create_resource Application key ps idx desired_timestamps)
         else split_pods_by_resource pod_telemetries paas
                (\<lambda>key ps idx. create_resource Cluster key ps idx desired_timestamps))"

definition retrieve_telemetry_data ::
  "(real \<Rightarrow> real) \<Rightarrow> real list \<Rightarrow> (HardwareConsumptionType \<Rightarrow> error + pod_series list) list
     \<Rightarrow> string list option \<Rightarrow> error + group_resource list" where
  "retrieve_telemetry_data timestamp desired_timestamps responses applications =
     (case retrieve_clusters timestamp responses desired_timestamps [] of
        Inl e \<Rightarrow> Inl e
      | Inr interp_pod_telemetries \<Rightarrow>
          filter_and_group interp_pod_telemetries applications desired_timestamps)"

subsection \<open>Predicates used to state the properties\<close>

text \<open>The series that \<open>store_series\<close> writes for a consumption type.\<close>

fun series_of :: "HardwareConsumptionType \<Rightarrow> pod \<Rightarrow> real list" where
  "series_of CPU_UTIL p = cpu_util p"
| "series_of REQUESTED_CORES p = requested_cpu p"
| "series_of REQUESTED_BYTES p = requested_memory p"
| "series_of STORAGE_CAPACITY_BYTES p = storage_capacity p"

text \<open>
  The groups dictionary after the pods \<open>seen\<close> were added: keys are unique, every group
  holds the pods with its key in their order, none is empty, every key has a group.
\<close>

definition groups_of :: "('a \<Rightarrow> string) \<Rightarrow> 'a list \<Rightarrow> (string \<times> 'a list) list \<Rightarrow> bool" where
  "groups_of key seen groups \<longleftrightarrow>
     distinct (map fst groups) \<and>
     (\<forall>(k, g)\<in>set groups. g = filter (\<lambda>p. key p = k) seen \<and> g \<noteq> []) \<and>
     (\<forall>p\<in>set seen. key p \<in> fst ` set groups)"

text \<open>
  A pod as the aligner leaves it on the grid \<open>desired\<close>: its time points are the grid,
  every telemetry series has the length of the grid or is empty, and nothing computed
  is filled in yet.
\<close>

definition aligned :: "real list \<Rightarrow> pod \<Rightarrow> bool" where
  "aligned desired p \<longleftrightarrow>
     time_points p = desired \<and>
     (length (cpu_util p) = length desired \<or> cpu_util p = []) \<and>
     (length (requested_cpu p) = length desired \<or> requested_cpu p = []) \<and>
     (length (requested_memory p) = length desired \<or> requested_memory p = []) \<and>
     (length (storage_capacity p) = length desired \<or> storage_capacity p = []) \<and>
     energy_consumed p = [] \<and> carbon_operational p = [] \<and> carbon_embodied p = [] \<and>
     carbon_emitted p = [] \<and> cpu_energy p = [] \<and> memory_energy p = [] \<and>
     cpu_power p = [] \<and> network_io p = []"

subsection \<open>Sample telemetry\<close>

text \<open>
  Query results in the shape of the repository's tests: one series per pod, the pods of
  the \<open>sample_pods\<close> fixture (ids 0, 1, 2) and a fourth pod that reports no requested
  memory; a cluster whose only pod reports CPU utilisation alone; a pod whose CPU
  utilisation has two samples on a grid of three.
\<close>

text \<open>
  \<open>datetime.timestamp()\<close> of a naive datetime in a process whose local zone is UTC, and
  in one whose local zone is Europe/Paris, around the end of summer time on 2023-10-29:
  there a wall clock before 03:00 of that day reads UTC+2 (the repeated hour from 02:00
  to 03:00 counts as its first occurrence) and from 03:00 on UTC+1.
\<close>

definition utc_timestamp :: "real \<Rightarrow> real" where
  "utc_timestamp t = t"

definition paris_timestamp :: "real \<Rightarrow> real" where
  "paris_timestamp t = (if t < 1698548400 then t - 7200 else t - 3600)"

definition sample_series :: "string \<Rightarrow> string \<Rightarrow> string \<Rightarrow> (real \<times> real) list \<Rightarrow> pod_series" where
  "sample_series u a p vals =
     \<lparr>uid = u, app_label = a, cluster_label = p, namespace_label = ''namespace1'',
      pod_label = u, data_values = vals\<rparr>"

definition sample_pod :: "string \<Rightarrow> string \<Rightarrow> string \<Rightarrow> real list \<Rightarrow> real list \<Rightarrow> real list \<Rightarrow> pod" where
  "sample_pod u a p cu rc rm =
     (Pod_new u a p ''namespace1'' u 281 PUE_AZURE [0])
       \<lparr>requested_cpu := rc, cpu_util := cu, requested_memory := rm\<rparr>"

definition sample_query :: "HardwareConsumptionType \<Rightarrow> error + pod_series list" where
  "sample_query ct =
     (case ct of
        CPU_UTIL \<Rightarrow>
          Inr [sample_series ''0'' ''app1'' ''paas1'' [(0, 3 / 10)],
               sample_series ''1'' ''app2'' ''paas1'' [(0, 4 / 10)],
               sample_series ''2'' ''app1'' ''paas2'' [(0, 6 / 10)],
               sample_series ''3'' ''app2'' ''paas2'' [(0, 5 / 10)]]
      | REQUESTED_CORES \<Rightarrow>
          Inr [sample_series ''0'' ''app1'' ''paas1'' [(0, 50)],
               sample_series ''1'' ''app2'' ''paas1'' [(0, 50)],
               sample_series ''2'' ''app1'' ''paas2'' [(0, 0)],
               sample_series ''3'' ''app2'' ''paas2'' [(0, 10)]]
      | REQUESTED_BYTES \<Rightarrow>
          Inr [sample_series ''0'' ''app1'' ''paas1'' [(0, 0)],
               sample_series ''1'' ''app2'' ''paas1'' [(0, 50)],
               sample_series ''2'' ''app1'' ''paas2'' [(0, 50)]]
      | STORAGE_CAPACITY_BYTES \<Rightarrow> Inr [])"

definition cpu_only_query :: "HardwareConsumptionType \<Rightarrow> error + pod_series list" where
  "cpu_only_query ct =
     (case ct of
        CPU_UTIL \<Rightarrow> Inr [sample_series ''pod1'' ''app1'' ''paas1'' [(0, 5 / 10)]]
      | _ \<Rightarrow> Inr [])"

definition interp_query :: "HardwareConsumptionType \<Rightarrow> error + pod_series list" where
  "interp_query ct =
     (case ct of
        CPU_UTIL \<Rightarrow>
          Inr [sample_series ''uid1'' ''app1'' ''paas1'' [(1672534800, 1), (1672542000, 3)]]
      | REQUESTED_CORES \<Rightarrow>
          Inr [sample_series ''uid1'' ''app1'' ''paas1''
                 [(1672534800, 2), (1672538400, 2), (1672542000, 2)]]
      | REQUESTED_BYTES \<Rightarrow>
          Inr [sample_series ''uid1'' ''app1'' ''paas1''
                 [(1672534800, 4), (1672538400, 4), (1672542000, 4)]]
      | STORAGE_CAPACITY_BYTES \<Rightarrow> Inr [])"

section \<open>Impact Framework services\<close>

subsection \<open>Resources as objects, evaluator output\<close>

text \<open>
  \<open>MetricsMapper\<close> writes attributes by name (\<open>setattr\<close>), so for the services a
  resource is an object: its id and its declared list-valued and float-valued fields
  with their values, in declaration order. Resources of one batch are distinct objects.
  Assigning a name that is no declared field raises \<open>ValueError\<close> (pydantic).
\<close>

datatype attr = FloatList "real option list" | Float real

record py_resource =
  obj_id :: string
  obj_fields :: "(string \<times> attr) list"

definition setattr :: "py_resource \<Rightarrow> string \<Rightarrow> attr \<Rightarrow> error + py_resource" where
  "setattr r field v =
     (case map_of (obj_fields r) field of
        None \<Rightarrow> Inl (ValueError (''object has no field '' @ field))
      | Some _ \<Rightarrow> Inr (r\<lparr>obj_fields := modify_item (obj_fields r) field (\<lambda>_. v)\<rparr>))"

definition getattr :: "py_resource \<Rightarrow> string \<Rightarrow> attr option" where
  "getattr r field = map_of (obj_fields r) field"

text \<open>The fields of \<open>Resource\<close>, \<open>ComputeResource\<close> and \<open>VirtualMachine\<close> with their defaults.\<close>

definition resource_fields :: "(string \<times> attr) list" where
  "resource_fields =
     [(''energy_consumed'', FloatList []), (''carbon_operational'', FloatList []),
      (''carbon_embodied'', FloatList []), (''carbon_emitted'', FloatList []),
      (''time_points'', FloatList []),
      (''total_energy_consumed'', Float 0), (''total_carbon_operational'', Float 0),
      (''total_carbon_embodied'', Float 0), (''total_carbon_emitted'', Float 0)]"

definition compute_resource_fields :: "(string \<times> attr) list" where
  "compute_resource_fields =
     resource_fields @
     [(''cpu_energy'', FloatList []), (''memory_energy'', FloatList []),
      (''cpu_power'', FloatList []), (''requested_cpu'', FloatList []),
      (''cpu_util'', FloatList []), (''storage_capacity'', FloatList []),
      (''network_io'', FloatList []), (''requested_memory'', FloatList []),
      (''total_cpu_energy'', Float 0), (''total_memory_energy'', Float 0),
      (''carbon_intensity'', Float 0), (''pue'', Float 1)]"

definition VirtualMachine_obj :: "string \<Rightarrow> py_resource" where
  "VirtualMachine_obj i =
     \<lparr>obj_id = i,
      obj_fields = compute_resource_fields @
        [(''storage_size'', FloatList []), (''storage_energy'', FloatList []),
         (''total_storage_energy'', Float 0), (''storage_embodied'', FloatList []),
         (''total_storage_embodied'', Float 0)]\<rparr>"

text \<open>The fields of \<open>StorageResource\<close>, which is a \<open>Resource\<close> but no \<open>ComputeResource\<close>.\<close>

definition StorageResource_obj :: "string \<Rightarrow> real \<Rightarrow> py_resource" where
  "StorageResource_obj i gb =
     \<lparr>obj_id = i,
      obj_fields = resource_fields @
        [(''size_gb'', Float gb), (''carbon_intensity'', Float 0),
         (''storage_energy'', FloatList []), (''total_storage_energy'', Float 0),
         (''storage_embodied'', FloatList []), (''total_storage_embodied'', Float 0),
         (''duration_seconds'', Float 86400)]\<rparr>"

text \<open>
  The output file of the evaluator for one manifest: \<open>execution.status\<close> and, under
  \<open>tree.children\<close>, per resource id the aggregated value of every metric and one record
  of numeric metric values per time point.
\<close>

record resource_output =
  aggregated :: "(string \<times> real) list"
  outputs :: "(string \<times> real) list list"

record if_output =
  execution_status :: string
  tree_children :: "(string \<times> resource_output) list"

subsection \<open>Parsing the evaluator output\<close>

text \<open>\<open>round(x, 4)\<close>: to four decimals, ties to even.\<close>

definition round_half_even :: "real \<Rightarrow> int" where
  "round_half_even x =
     (let f = \<lfloor>x\<rfloor>; d = x - of_int f
      in if d < 1 / 2 then f else if 1 / 2 < d then f + 1 else if even f then f else f + 1)"

definition round4 :: "real \<Rightarrow> real" where
  "round4 x = of_int (round_half_even (x * 10000)) / 10000"

record metric_data =
  aggregated_value :: "real option"
  observations :: "real option list"

text \<open>\<open>d[k] = v\<close> on an insertion-ordered dictionary.\<close>

definition dict_set :: "(string \<times> 'v) list \<Rightarrow> string \<Rightarrow> 'v \<Rightarrow> (string \<times> 'v) list" where
  "dict_set d k v =
     (case map_of d k of None \<Rightarrow> d @ [(k, v)] | Some _ \<Rightarrow> modify_item d k (\<lambda>_. v))"

text \<open>
  The inner loop of \<open>get_measurements_from_output\<close>: one observation per metric for a
  time point; \<open>timepoint[metric]\<close> is read only for metrics other than timestamp and
  duration.
\<close>

fun observe ::
  "(string \<times> real) list \<Rightarrow> (string \<times> metric_data) list \<Rightarrow> error + (string \<times> metric_data) list" where
  "observe timepoint [] = Inr []"
| "observe timepoint ((metric, metric_data) # rest) =
     (case (if metric \<in> set [''timestamp'', ''duration''] then Inr None
            else (case dict_item timepoint metric of
                    Inl e \<Rightarrow> Inl e
                  | Inr v \<Rightarrow> Inr (Some (round4 v)))) of
        Inl e \<Rightarrow> Inl e
      | Inr ob \<Rightarrow>
          (case observe timepoint rest of
             Inl e \<Rightarrow> Inl e
           | Inr rest' \<Rightarrow>
               Inr ((metric, metric_data\<lparr>observations := observations metric_data @ [ob]\<rparr>)
                    # rest')))"

fun observe_all ::
  "(string \<times> real) list list \<Rightarrow> (string \<times> metric_data) list \<Rightarrow> error + (string \<times> metric_data) list" where
  "observe_all [] metrics = Inr metrics"
| "observe_all (timepoint # timepoints) metrics =
     (case observe timepoint metrics of
        Inl e \<Rightarrow> Inl e
      | Inr metrics' \<Rightarrow> observe_all timepoints metrics')"

definition get_measurements_from_output ::
  "(string \<times> resource_output) list \<Rightarrow> string \<Rightarrow> error + (string \<times> metric_data) list" where
  "get_measurements_from_output if_out compute_resource_id =
     (case dict_item if_out compute_resource_id of
        Inl e \<Rightarrow> Inl e
      | Inr ro \<Rightarrow>
          (let metrics0 = [(''timestamp'', \<lparr>aggregated_value = None, observations = []\<rparr>)];
               metrics = fold (\<lambda>(metric, v) m.
                                  dict_set m metric
                                    \<lparr>aggregated_value = Some (round4 v), observations = []\<rparr>)
                              (aggregated ro) metrics0
           in observe_all (outputs ro) metrics))"

text \<open>\<open>MetricsMapper.METRICS_MAPPER\<close>: metric, attribute of the observations, attribute of the aggregate.\<close>

definition METRICS_MAPPER :: "(string \<times> string \<times> string option) list" where
  "METRICS_MAPPER =
     [(''carbon'', ''carbon_emitted'', Some ''total_carbon_emitted''),
      (''energy'', ''energy_consumed'', Some ''total_energy_consumed''),
      (''carbon-embodied'', ''carbon_embodied'', Some ''total_carbon_embodied''),
      (''carbon-operational'', ''carbon_operational'', Some ''total_carbon_operational''),
      (''cpu/energy'', ''cpu_energy'', Some ''total_cpu_energy''),
      (''cpu/power'', ''cpu_power'', None),
      (''resources-reserved'', ''requested_cpu'', None),
      (''memory/energy'', ''memory_energy'', Some ''total_memory_energy''),
      (''storage/energy'', ''storage_energy'', Some ''total_storage_energy''),
      (''storage-embodied'', ''storage_embodied'', Some ''total_storage_embodied'')]"

text \<open>
  Functions that change objects in place return the objects as they are when the
  function returns or raises, with the exception raised, if any.
\<close>

fun map_entries ::
  "(string \<times> string \<times> string option) list \<Rightarrow> (string \<times> metric_data) list \<Rightarrow> py_resource
     \<Rightarrow> py_resource \<times> error option" where
  "map_entries [] metrics r = (r, None)"
| "map_entries ((metric_key, obs_attr, agg_attr) # rest) metrics r =
     (case map_of metrics metric_key of
        None \<Rightarrow> map_entries rest metrics r
      | Some md \<Rightarrow>
          (case setattr r obs_attr (FloatList (observations md)) of
             Inl e \<Rightarrow> (r, Some e)
           | Inr r1 \<Rightarrow>
               (case agg_attr of
                  None \<Rightarrow> map_entries rest metrics r1
                | Some a \<Rightarrow>
                    (case aggregated_value md of
                       None \<Rightarrow> (r1, Some (KeyError ''aggregated''))
                     | Some v \<Rightarrow>
                         (case setattr r1 a (Float v) of
                            Inl e \<Rightarrow> (r1, Some e)
                          | Inr r2 \<Rightarrow> map_entries rest metrics r2)))))"

definition map_metrics_to_resource ::
  "(string \<times> metric_data) list \<Rightarrow> py_resource \<Rightarrow> py_resource \<times> error option" where
  "map_metrics_to_resource metrics r = map_entries METRICS_MAPPER metrics r"

fun aggregate_app_level ::
  "py_resource list \<Rightarrow> (string \<times> resource_output) list \<Rightarrow> py_resource list \<times> error option" where
  "aggregate_app_level [] if_out = ([], None)"
| "aggregate_app_level (compute_resource # rest) if_out =
     (case get_measurements_from_output if_out (obj_id compute_resource) of
        Inl e \<Rightarrow> (compute_resource # rest, Some e)
      | Inr metrics \<Rightarrow>
          (case map_metrics_to_resource metrics compute_resource of
             (r', Some e) \<Rightarrow> (r' # rest, Some e)
           | (r', None) \<Rightarrow>
               (case aggregate_app_level rest if_out of
                  (rest', err) \<Rightarrow> (r' # rest', err))))"

text \<open>
  \<open>parse_if_output\<close> as the VM and Storage profiles call it (at application level),
  on the content \<open>if_out\<close> of the output file with this file id.
\<close>

definition parse_if_output ::
  "if_output \<Rightarrow> py_resource list \<Rightarrow> nat \<Rightarrow> py_resource list \<times> error option" where
  "parse_if_output if_out compute_resources file_id =
     (if execution_status if_out \<noteq> ''success''
      then (compute_resources,
            Some (KnownException IF_EXECUTION_FAILED
                    (''IF has failed to calculate the carbon impact for file ID ''
                       @ str_nat file_id @ ''.'')))
      else aggregate_app_level compute_resources (tree_children if_out))"

subsection \<open>Chunked execution\<close>

text \<open>\<open>range(0, stop, step)\<close>.\<close>

definition py_range :: "nat \<Rightarrow> nat \<Rightarrow> error + nat list" where
  "py_range stop step =
     (if step = 0 then Inl (ValueError ''range() arg 3 must not be zero'')
      else Inr (map (\<lambda>k. k * step) [0..<(stop + step - 1) div step]))"

text \<open>
  The assignments \<open>vms[index * chunk_size + i] = vm\<close> under the lock; an index out of
  range raises \<open>IndexError\<close>.
\<close>

fun write_back :: "'a list \<Rightarrow> nat \<Rightarrow> nat \<Rightarrow> 'a list \<Rightarrow> 'a list \<times> error option" where
  "write_back vms offset i [] = (vms, None)"
| "write_back vms offset i (vm # chunk) =
     (if offset + i < length vms
      then write_back (vms[offset + i := vm]) offset (Suc i) chunk
      else (vms, Some IndexError))"

text \<open>
  \<open>compute_metrics_for_chunk\<close> on the shared list. \<open>run_if\<close> stands for writing the
  manifest and running the evaluator on it: it raises or leaves the output file that
  \<open>parse_if_output\<close> reads. The chunk holds the very objects of the list, so what the
  parse has changed shows in the list also when it raises.
\<close>

definition compute_metrics_for_chunk ::
  "(nat \<Rightarrow> py_resource list \<Rightarrow> error + if_output) \<Rightarrow> nat \<Rightarrow> py_resource list \<Rightarrow> nat
     \<Rightarrow> py_resource list \<Rightarrow> py_resource list \<times> error option" where
  "compute_metrics_for_chunk run_if chunk_size chunk index vms =
     (case run_if index chunk of
        Inl e \<Rightarrow> (vms, Some e)
      | Inr if_out \<Rightarrow>
          (case parse_if_output if_out chunk index of
             (chunk', Some e) \<Rightarrow> (fst (write_back vms (index * chunk_size) 0 chunk'), Some e)
           | (chunk', None) \<Rightarrow> write_back vms (index * chunk_size) 0 chunk'))"

text \<open>
  \<open>run_engine\<close> of \<open>IFVMService\<close> and \<open>IFStorageService\<close>. The chunks are cut before the
  workers start; \<open>completion_order\<close> is the order in which the workers get to run, a
  permutation of the chunk indices. An exception in a worker stays in its future,
  which nobody reads. The statistics that the Storage profile logs before and after
  neither change the list nor raise.
\<close>

definition make_chunks :: "nat \<Rightarrow> 'a list \<Rightarrow> error + 'a list list" where
  "make_chunks chunk_size vms =
     (case py_range (length vms) chunk_size of
        Inl e \<Rightarrow> Inl e
      | Inr starts \<Rightarrow> Inr (map (\<lambda>x. take chunk_size (drop x vms)) starts))"

definition run_engine ::
  "(nat \<Rightarrow> py_resource list \<Rightarrow> error + if_output) \<Rightarrow> nat \<Rightarrow> nat list \<Rightarrow> py_resource list
     \<Rightarrow> error + py_resource list" where
  "run_engine run_if profile_chunk_size completion_order vms =
     (let chunk_size = min profile_chunk_size (length vms)
      in case make_chunks chunk_size vms of
           Inl e \<Rightarrow> Inl e
         | Inr chunks \<Rightarrow>
             Inr (fold (\<lambda>index acc.
                          fst (compute_metrics_for_chunk run_if chunk_size (chunks ! index)
                                 index acc))
                       completion_order vms))"

definition IFVMService_run_engine ::
  "(nat \<Rightarrow> py_resource list \<Rightarrow> error + if_output) \<Rightarrow> nat list \<Rightarrow> py_resource list
     \<Rightarrow> error + py_resource list" where
  "IFVMService_run_engine run_if completion_order vms = run_engine run_if 430 completion_order vms"

definition IFStorageService_run_engine ::
  "(nat \<Rightarrow> py_resource list \<Rightarrow> error + if_output) \<Rightarrow> nat list \<Rightarrow> py_resource list
     \<Rightarrow> error + py_resource list" where
  "IFStorageService_run_engine run_if completion_order storage_resources =
     run_engine run_if 10000 completion_order storage_resources"

subsection \<open>What processing a resource and a chunk means\<close>

text \<open>One iteration of the loop of \<open>aggregate_app_level\<close> on one resource.\<close>

definition process_resource :: "(string \<times> resource_output) list \<Rightarrow> py_resource \<Rightarrow> py_resource" where
  "process_resource if_out r =
     (case get_measurements_from_output if_out (obj_id r) of
        Inl e \<Rightarrow> r
      | Inr metrics \<Rightarrow> fst (map_metrics_to_resource metrics r))"

text \<open>The objects of a chunk after its worker has ended, normally or not.\<close>

definition process_chunk ::
  "(nat \<Rightarrow> py_resource list \<Rightarrow> error + if_output) \<Rightarrow> nat \<Rightarrow> py_resource list \<Rightarrow> py_resource list" where
  "process_chunk run_if index chunk =
     (case run_if index chunk of
        Inl e \<Rightarrow> chunk
      | Inr if_out \<Rightarrow> fst (parse_if_output if_out chunk index))"

text \<open>
  The shared list while the workers run: the chunks in \<open>D\<close> are as their workers left
  them, the others as in the input.
\<close>

definition workers_done ::
  "(nat \<Rightarrow> py_resource list \<Rightarrow> error + if_output) \<Rightarrow> nat \<Rightarrow> py_resource list list \<Rightarrow>
     py_resource list \<Rightarrow> nat set \<Rightarrow> py_resource list \<Rightarrow> bool" where
  "workers_done run_if cs chunks vms D acc \<longleftrightarrow>
     length acc = length vms \<and>
     (\<forall>j<length vms. acc ! j =
        (if j div cs \<in> D then process_chunk run_if (j div cs) (chunks ! (j div cs)) ! (j mod cs)
         else vms ! j))"

subsection \<open>Sample batch\<close>

text \<open>An evaluator that reports, for every resource of chunk \<open>k\<close>, the carbon value \<open>k\<close> at one time point.\<close>

definition sample_run_if :: "nat \<Rightarrow> py_resource list \<Rightarrow> error + if_output" where
  "sample_run_if k chunk =
     Inr \<lparr>execution_status = ''success'',
          tree_children =
            map (\<lambda>r. (obj_id r, \<lparr>aggregated = [(''carbon'', real k)],
                                    outputs = [[(''carbon'', real k)]]\<rparr>)) chunk\<rparr>"

definition sample_vms :: "py_resource list" where
  "sample_vms = map VirtualMachine_obj [''a'', ''b'', ''c'', ''d'', ''e'']"


section \<open>Properties of the model graph nodes\<close>

lemma TeadsCurve_30: "TeadsCurve 30 = 107 / 200"
  by (simp add: TeadsCurve_def interp_value_def teads_x_def teads_y_def)

text \<open>
  C1 (as amended): for a compute resource with thermal design power 205 W and cpu_util
  0.3 at a time index, the CPU chain over a duration of 1800 s yields tdp-ratio 0.535,
  cpu/power 0.109675 kW and cpu/energy 0.0548375 kWh.
\<close>

theorem cpu_chain_tdp205_util03:
  assumes "time_index < length (time_points cr)"
    and "time_index < length (cpu_util cr)"
    and "cpu_util cr ! time_index = 3 / 10"
  shows "cpu_chain cr time_index 205 1800 = Inr (107 / 200, 4387 / 40000, 4387 / 80000)"
proof -
  have capped: "min (cpu_util cr ! time_index * 100) 100 = 30"
    using assms(3) by simp
  have "TeadsCurve_fill_inputs cr time_index = Inr (time_points cr ! time_index, 30)"
    using assms(1,2) capped by (simp add: TeadsCurve_fill_inputs_def)
  then show ?thesis
    by (simp add: cpu_chain_def TeadsCurve_30 PCpu_def ECpu_def Multiply_def)
qed

theorem cpu_chain_tdp205_util03_witness:
  "0 < length (time_points ((Pod_new ''0'' ''app1'' ''paas1'' ''namespace1'' ''pod1'' 0 1 [0])
        \<lparr>cpu_util := [3 / 10]\<rparr>))
   \<and> cpu_chain ((Pod_new ''0'' ''app1'' ''paas1'' ''namespace1'' ''pod1'' 0 1 [0])
        \<lparr>cpu_util := [3 / 10]\<rparr>) 0 205 1800
     = Inr (107 / 200, 4387 / 40000, 4387 / 80000)"
  using cpu_chain_tdp205_util03
    [of 0 "(Pod_new ''0'' ''app1'' ''paas1'' ''namespace1'' ''pod1'' 0 1 [0])\<lparr>cpu_util := [3 / 10]\<rparr>"]
  by (simp add: Pod_new_def)

text \<open>
  C1 as stated fails: at TDP 205 W, cpu_util 0.3 and 1800 s the chain yields 0.535,
  0.109675 and 0.0548375, none of them within 0.001 of the stated 0.5525, 0.1133 and
  0.0567.
\<close>

theorem cpu_chain_stated_values_counterexample:
  "cpu_chain ((Pod_new ''0'' ''app1'' ''paas1'' ''namespace1'' ''pod1'' 0 1 [0])
        \<lparr>cpu_util := [3 / 10]\<rparr>) 0 205 1800
     = Inr (107 / 200, 4387 / 40000, 4387 / 80000)
   \<and> \<not> \<bar>107 / 200 - 5525 / 10000 :: real\<bar> \<le> 1 / 1000
   \<and> \<not> \<bar>4387 / 40000 - 1133 / 10000 :: real\<bar> \<le> 1 / 1000
   \<and> \<not> \<bar>4387 / 80000 - 567 / 10000 :: real\<bar> \<le> 1 / 1000"
  by (simp add: Pod_new_def cpu_chain_def TeadsCurve_fill_inputs_def TeadsCurve_30
      PCpu_def ECpu_def Multiply_def)

lemma replication_factor_table:
  "dict_get STORAGE_REPLICATION_FACTORS k 1 =
     (if k \<in> {''LRS'', ''ZRS''} then 3
      else if k \<in> {''GRS'', ''RA_GRS'', ''GZRS'', ''RA_GZRS''} then 6
      else 1)"
  unfolding dict_get_def STORAGE_REPLICATION_FACTORS_def
  by (simp del: list.inject char.inject)

lemma power_coefficient_table:
  "dict_get STORAGE_POWER_COEFFICIENT_MAPPING k (925 / 1000000000) =
     (if k = ''SSD'' then 12 / 10000000
      else if k = ''HDD'' then 65 / 100000000
      else 925 / 1000000000)"
  unfolding dict_get_def STORAGE_POWER_COEFFICIENT_MAPPING_def
  by (simp del: list.inject char.inject)

lemma unknown_power_coefficient:
  "dict_item STORAGE_POWER_COEFFICIENT_MAPPING ''UNKNOWN'' = Inr (925 / 1000000000)"
  by (simp add: dict_item_def STORAGE_POWER_COEFFICIENT_MAPPING_def)

lemma PStorage_fill_inputs_returns:
  "PStorage_fill_inputs sr time_index =
     Inr (size_gb sr *
            (if upper (replication_type sr) \<in> {''LRS'', ''ZRS''} then 3
             else if upper (replication_type sr) \<in> {''GRS'', ''RA_GRS'', ''GZRS'', ''RA_GZRS''}
             then 6 else 1),
          if upper (storage_type sr) = ''SSD'' then 12 / 10000000
          else if upper (storage_type sr) = ''HDD'' then 65 / 100000000
          else 925 / 1000000000)"
  unfolding PStorage_fill_inputs_def unknown_power_coefficient
  by (simp only: replication_factor_table power_coefficient_table Let_def sum.case)

text \<open>
  C2: for every StorageResource, with the replication factor 3 for LRS and ZRS, 6 for GRS,
  RA_GRS, GZRS and RA_GZRS and 1 for any other replication type, and the power coefficient
  1.2e-6 for SSD, 6.5e-7 for HDD and 9.25e-7 for any other storage type (both keys are
  upper-cased before the lookup): \<open>fill_inputs\<close> hands the node size_gb * replication_factor
  as storage/requested and the power coefficient as power/coefficient, so the factor
  multiplies the size before the power computation, and the storage power node computes
  (size_gb * replication_factor) * power_coefficient.
\<close>

theorem PStorage_power:
  "PStorage_fill_inputs sr time_index =
     Inr (size_gb sr *
            (if upper (replication_type sr) \<in> {''LRS'', ''ZRS''} then 3
             else if upper (replication_type sr) \<in> {''GRS'', ''RA_GRS'', ''GZRS'', ''RA_GZRS''}
             then 6 else 1),
          if upper (storage_type sr) = ''SSD'' then 12 / 10000000
          else if upper (storage_type sr) = ''HDD'' then 65 / 100000000
          else 925 / 1000000000) \<and>
   PStorage sr time_index =
     Inr ((size_gb sr *
            (if upper (replication_type sr) \<in> {''LRS'', ''ZRS''} then 3
             else if upper (replication_type sr) \<in> {''GRS'', ''RA_GRS'', ''GZRS'', ''RA_GZRS''}
             then 6 else 1)) *
          (if upper (storage_type sr) = ''SSD'' then 12 / 10000000
           else if upper (storage_type sr) = ''HDD'' then 65 / 100000000
           else 925 / 1000000000))"
proof
  show "PStorage_fill_inputs sr time_index =
     Inr (size_gb sr *
            (if upper (replication_type sr) \<in> {''LRS'', ''ZRS''} then 3
             else if upper (replication_type sr) \<in> {''GRS'', ''RA_GRS'', ''GZRS'', ''RA_GZRS''}
             then 6 else 1),
          if upper (storage_type sr) = ''SSD'' then 12 / 10000000
          else if upper (storage_type sr) = ''HDD'' then 65 / 100000000
          else 925 / 1000000000)"
    by (rule PStorage_fill_inputs_returns)
  show "PStorage sr time_index =
     Inr ((size_gb sr *
            (if upper (replication_type sr) \<in> {''LRS'', ''ZRS''} then 3
             else if upper (replication_type sr) \<in> {''GRS'', ''RA_GRS'', ''GZRS'', ''RA_GZRS''}
             then 6 else 1)) *
          (if upper (storage_type sr) = ''SSD'' then 12 / 10000000
           else if upper (storage_type sr) = ''HDD'' then 65 / 100000000
           else 925 / 1000000000))"
    unfolding PStorage_def PStorage_fill_inputs_returns
    by (simp only: sum.case prod.case Multiply_def prod_list.Cons prod_list.Nil mult_1_right)
qed

section \<open>Properties of the carbon-intensity lookup\<close>

lemma calculate_ci_unrecognized:
  "map_of REGION_TO_COUNTRY_CARBON_INTENSITY z = None \<Longrightarrow> calculate_ci (Some z) = Inr 281"
  by (simp add: calculate_ci_def CARBON_INTENSITY_EUROPE_def)

lemma calculate_ci_francecentral: "calculate_ci (Some ''francecentral'') = Inr 44"
  by (simp add: calculate_ci_def REGION_TO_COUNTRY_CARBON_INTENSITY_def dict_item_def)

text \<open>
  C8 at the region francesouth, which is in the table: the lookup raises KeyError
  instead of returning the region's carbon intensity, since the entry's key is
  \<open>carbon\<close> and not \<open>carbon_intensity\<close>.
\<close>

theorem calculate_ci_francesouth:
  "calculate_ci (Some ''francesouth'') = Inl (KeyError ''carbon_intensity'')"
  by (simp add: calculate_ci_def REGION_TO_COUNTRY_CARBON_INTENSITY_def dict_item_def)

lemma get_ci_from_paas_nce:
  "get_ci_from_paas ''prd-nce1-x'' = Inl (KeyError ''carbon_intensity'')"
  by (simp add: get_ci_from_paas_def extract_zone_from_paas_def upper_def upper_char_def
      remove_unnecessary_def is_digit_def ZONES_def calculate_ci_def
      REGION_TO_COUNTRY_CARBON_INTENSITY_def dict_item_def)

section \<open>Properties of the telemetry aligner\<close>

lemma series_of_store_series [simp]: "series_of ct (store_series ct vl p) = vl"
  by (cases ct) simp_all

lemma map_of_setdefault:
  "map_of (setdefault d k v) k = Some (case map_of d k of None \<Rightarrow> v | Some w \<Rightarrow> w)"
  by (auto simp: setdefault_def map_add_def split: option.splits)

lemma map_of_modify_item:
  "map_of (modify_item d k f) k' = (if k' = k then map_option f (map_of d k) else map_of d k')"
  by (induction d) (auto simp: modify_item_def)

lemma np_interp_Inr:
  "np_interp xs xp fp = Inr ys \<Longrightarrow> ys = map (interp_value xp fp) xs \<and> xp \<noteq> []"
  by (auto simp: np_interp_def split: if_splits)

lemma parse_pod_datum_stores:
  assumes ci: "get_ci_from_paas (cluster_label data) = Inr ci"
    and vl: "(if length (data_values data) < length desired_timestamps
              then interpolate_field_data timestamp desired_timestamps
                     (map fst (data_values data)) (map snd (data_values data))
              else Inr (map snd (data_values data))) = Inr vl"
  shows "\<exists>telemetries p.
           parse_pod_datum timestamp desired_timestamps consumption_type pod_telemetries data =
             Inr telemetries \<and>
           map_of telemetries (uid data) = Some p \<and> series_of consumption_type p = vl"
proof -
  let ?tel = "setdefault pod_telemetries (uid data)
                 (Pod_new (uid data) (app_label data) (cluster_label data)
                    (namespace_label data) (pod_label data) ci PUE_AZURE desired_timestamps)"
  have "parse_pod_datum timestamp desired_timestamps consumption_type pod_telemetries data =
      Inr (modify_item ?tel (uid data) (store_series consumption_type vl))"
    using vl by (simp add: parse_pod_datum_def ci Let_def)
  moreover have "\<exists>p. map_of (modify_item ?tel (uid data) (store_series consumption_type vl))
      (uid data) = Some p \<and> series_of consumption_type p = vl"
    by (simp add: map_of_modify_item map_of_setdefault)
  ultimately show ?thesis by blast
qed

lemma interpolated_series:
  assumes short: "length (data_values data) < length desired_timestamps"
    and ne: "data_values data \<noteq> []"
    and ci: "get_ci_from_paas (cluster_label data) = Inr ci"
  shows "\<exists>telemetries p.
           parse_pod_datum timestamp desired_timestamps consumption_type pod_telemetries data =
             Inr telemetries \<and>
           map_of telemetries (uid data) = Some p \<and>
           series_of consumption_type p =
             map (\<lambda>t. interp_value (map fst (data_values data)) (map snd (data_values data))
                        (timestamp (t + 3600))) desired_timestamps"
proof (rule parse_pod_datum_stores [OF ci])
  show "(if length (data_values data) < length desired_timestamps
         then interpolate_field_data timestamp desired_timestamps
                (map fst (data_values data)) (map snd (data_values data))
         else Inr (map snd (data_values data))) =
        Inr (map (\<lambda>t. interp_value (map fst (data_values data)) (map snd (data_values data))
                        (timestamp (t + 3600))) desired_timestamps)"
    using short ne by (simp add: interpolate_field_data_def np_interp_def comp_def)
qed

lemma empty_series_raises:
  assumes short: "length (data_values data) < length desired_timestamps"
    and e: "data_values data = []"
    and ci: "get_ci_from_paas (cluster_label data) = Inr ci"
  shows "parse_pod_datum timestamp desired_timestamps consumption_type pod_telemetries data =
           Inl (ValueError ''array of sample points is empty'')"
  using short
  by (simp add: parse_pod_datum_def ci e Let_def interpolate_field_data_def np_interp_def)

lemma stored_as_is:
  assumes long: "length desired_timestamps \<le> length (data_values data)"
    and ci: "get_ci_from_paas (cluster_label data) = Inr ci"
  shows "\<exists>telemetries p.
           parse_pod_datum timestamp desired_timestamps consumption_type pod_telemetries data =
             Inr telemetries \<and>
           map_of telemetries (uid data) = Some p \<and>
           series_of consumption_type p = map snd (data_values data)"
proof (rule parse_pod_datum_stores [OF ci])
  show "(if length (data_values data) < length desired_timestamps
         then interpolate_field_data timestamp desired_timestamps
                (map fst (data_values data)) (map snd (data_values data))
         else Inr (map snd (data_values data))) = Inr (map snd (data_values data))"
    using long by simp
qed

lemma interpolation_example:
  assumes "0 < step"
    and "timestamp (t1 + 3600) = timestamp (t0 + 3600) + step"
    and "timestamp (t2 + 3600) = timestamp (t0 + 3600) + 2 * step"
  shows "interpolate_field_data timestamp [t0, t1, t2]
           [timestamp (t0 + 3600), timestamp (t2 + 3600)] [1, 3] = Inr [1, 2, 3]"
  using assms
  by (simp add: interpolate_field_data_def np_interp_def interp_value_def field_simps)

lemma foldl_map2_length:
  "\<forall>r\<in>set rs. length r = length acc \<Longrightarrow>
     length (foldl (\<lambda>a r. map2 (+) a r) acc rs) = length (acc :: real list)"
  by (induction rs arbitrary: acc) simp_all

lemma foldl_map2_nth:
  "\<forall>r\<in>set rs. length r = length acc \<Longrightarrow> j < length acc \<Longrightarrow>
     foldl (\<lambda>a r. map2 (+) a r) acc rs ! j = (acc :: real list) ! j + sum_list (map (\<lambda>r. r ! j) rs)"
proof (induction rs arbitrary: acc)
  case Nil
  then show ?case by simp
next
  case (Cons r rs)
  have len: "length (map2 (+) acc r) = length acc"
    using Cons.prems(1) by simp
  have "foldl (\<lambda>a r. map2 (+) a r) (map2 (+) acc r) rs ! j
          = map2 (+) acc r ! j + sum_list (map (\<lambda>r. r ! j) rs)"
    using Cons.prems len by (intro Cons.IH) simp_all
  then show ?case
    using Cons.prems by simp
qed

lemma np_sum_axis0_Inr:
  assumes "np_sum_axis0 rows = Inr s"
  shows "rows \<noteq> []"
    and "\<forall>r\<in>set rows. length r = length s"
    and "\<forall>j<length s. s ! j = sum_list (map (\<lambda>r. r ! j) rows)"
proof -
  from assms obtain r rs where rows: "rows = r # rs"
    by (cases rows) (simp_all add: np_sum_axis0_def)
  from assms rows have same: "\<forall>x\<in>set rs. length x = length r"
    and s: "s = foldl (\<lambda>a x. map2 (+) a x) r rs"
    by (auto simp: np_sum_axis0_def list_all_iff split: if_splits)
  show "rows \<noteq> []" by (simp add: rows)
  have len: "length s = length r"
    unfolding s using same by (rule foldl_map2_length)
  show "\<forall>r\<in>set rows. length r = length s"
    using same len by (simp add: rows)
  show "\<forall>j<length s. s ! j = sum_list (map (\<lambda>r. r ! j) rows)"
    using foldl_map2_nth [OF same] len by (simp add: rows s)
qed

lemma np_mean_axis0_Inr:
  assumes "np_mean_axis0 rows = Inr m"
  shows "rows \<noteq> []"
    and "\<forall>r\<in>set rows. length r = length m"
    and "\<forall>j<length m. m ! j = sum_list (map (\<lambda>r. r ! j) rows) / real (length rows)"
proof -
  from assms obtain s where s: "np_sum_axis0 rows = Inr s"
    and m: "m = map (\<lambda>x. x / real (length rows)) s"
    by (auto simp: np_mean_axis0_def split: sum.splits)
  show "rows \<noteq> []" using np_sum_axis0_Inr(1) [OF s] .
  show "\<forall>r\<in>set rows. length r = length m"
    using np_sum_axis0_Inr(2) [OF s] by (simp add: m)
  show "\<forall>j<length m. m ! j = sum_list (map (\<lambda>r. r ! j) rows) / real (length rows)"
    using np_sum_axis0_Inr(3) [OF s] by (simp add: m)
qed

lemma create_resource_Inr:
  assumes "create_resource c k ps i d = Inr g"
  shows "cls g = c" "name g = Some k" "pods g = ps" "time_points g = d" "res_id g = str_nat i"
    and "np_sum_axis0 (map requested_cpu ps) = Inr (requested_cpu g)"
    and "np_sum_axis0 (map requested_memory ps) = Inr (requested_memory g)"
    and "np_mean_axis0 (map cpu_util ps) = Inr (cpu_util g)"
    and "energy_consumed g = []" "carbon_operational g = []" "carbon_embodied g = []"
      "carbon_emitted g = []" "cpu_energy g = []" "memory_energy g = []" "cpu_power g = []"
      "storage_capacity g = []" "network_io g = []"
  using assms
  by (auto simp: create_resource_def group_resource_new_def Let_def split: sum.splits)

lemma map_fst_modify_item [simp]: "map fst (modify_item d k f) = map fst d"
  by (induction d) (auto simp: modify_item_def)

lemma set_modify_item:
  "distinct (map fst d) \<Longrightarrow> map_of d k = Some v \<Longrightarrow>
     set (modify_item d k f) = insert (k, f v) (set d - {(k, v)})"
proof (induction d)
  case Nil
  then show ?case by simp
next
  case (Cons x d)
  obtain k' v' where x: "x = (k', v')" by (cases x)
  show ?case
  proof (cases "k' = k")
    case True
    with Cons.prems x have v: "v' = v" and notin: "k \<notin> fst ` set d" by auto
    have "modify_item d k f = d"
      using notin by (induction d) (auto simp: modify_item_def)
    then have "modify_item (x # d) k f = (k, f v) # d"
      using True x v by (simp add: modify_item_def)
    moreover have "(k, v) \<notin> set d" using notin by force
    ultimately show ?thesis using True x v by auto
  next
    case False
    with Cons.prems x have m: "map_of d k = Some v" and d: "distinct (map fst d)" 
      and k': "k' \<notin> fst ` set d" by auto
    have "modify_item (x # d) k f = x # modify_item d k f"
      using False x by (simp add: modify_item_def)
    then show ?thesis
      using Cons.IH [OF d m] False x by auto
  qed
qed

lemma groups_of_append:
  assumes "groups_of key seen groups"
  shows "groups_of key (seen @ [p]) (append_to_group groups (key p) p)"
proof (cases "map_of groups (key p)")
  case None
  then have notin: "key p \<notin> fst ` set groups"
    by (simp add: map_of_eq_None_iff)
  then have nofilter: "filter (\<lambda>q. key q = key p) seen = []"
  proof -
    have "\<forall>q\<in>set seen. key q \<noteq> key p"
      using assms notin unfolding groups_of_def by metis
    then show ?thesis by (simp add: filter_empty_conv)
  qed
  have "append_to_group groups (key p) p = groups @ [(key p, [p])]"
    using None by (simp add: append_to_group_def)
  moreover have "groups_of key (seen @ [p]) (groups @ [(key p, [p])])"
    using assms notin nofilter unfolding groups_of_def
    by (auto simp: rev_image_eqI)
  ultimately show ?thesis by simp
next
  case (Some g)
  have dist: "distinct (map fst groups)" using assms by (simp add: groups_of_def)
  have mem: "(key p, g) \<in> set groups" using Some by (rule map_of_SomeD)
  have eq: "append_to_group groups (key p) p = modify_item groups (key p) (\<lambda>g. g @ [p])"
    using Some by (simp add: append_to_group_def)
  have st: "set (modify_item groups (key p) (\<lambda>g. g @ [p]))
        = insert (key p, g @ [p]) (set groups - {(key p, g)})"
    using set_modify_item [OF dist Some] .
  have g: "g = filter (\<lambda>q. key q = key p) seen"
    using assms mem by (auto simp: groups_of_def)
  have others: "\<And>k h. (k, h) \<in> set groups \<Longrightarrow> (k, h) \<noteq> (key p, g) \<Longrightarrow> k \<noteq> key p"
    using eq_key_imp_eq_value [OF dist mem] by blast
  show ?thesis
    unfolding eq groups_of_def
  proof (intro conjI)
    show "distinct (map fst (modify_item groups (key p) (\<lambda>g. g @ [p])))"
      using dist by simp
    show "\<forall>(k, h)\<in>set (modify_item groups (key p) (\<lambda>g. g @ [p])).
            h = filter (\<lambda>q. key q = k) (seen @ [p]) \<and> h \<noteq> []"
      unfolding st using assms g others by (auto simp: groups_of_def)
    have "fst ` set (modify_item groups (key p) (\<lambda>g. g @ [p])) = fst ` set groups"
      by (metis list.set_map map_fst_modify_item)
    moreover have "key p \<in> fst ` set groups" using mem by force
    ultimately show "\<forall>q\<in>set (seen @ [p]). key q \<in> fst ` set (modify_item groups (key p) (\<lambda>g. g @ [p]))"
      using assms by (auto simp: groups_of_def)
  qed
qed

lemma groups_of_group_pods:
  "groups_of key seen groups \<Longrightarrow> groups_of key (seen @ ps) (group_pods key ps groups)"
proof (induction ps arbitrary: seen groups)
  case Nil
  then show ?case by simp
next
  case (Cons p ps)
  have "groups_of key ((seen @ [p]) @ ps) (group_pods key ps (append_to_group groups (key p) p))"
    by (rule Cons.IH) (rule groups_of_append [OF Cons.prems])
  then show ?case by simp
qed

lemma group_pods_correct: "groups_of key ps (group_pods key ps [])"
  using groups_of_group_pods [of key "[]" "[]" ps] by (simp add: groups_of_def)

lemma build_resources_Inr:
  "build_resources factory idx groups = Inr rs \<Longrightarrow> r \<in> set rs \<Longrightarrow>
     \<exists>k g i. (k, g) \<in> set groups \<and> factory k g i = Inr r"
proof (induction groups arbitrary: idx rs)
  case Nil
  then show ?case by simp
next
  case (Cons kg groups)
  obtain k g where kg: "kg = (k, g)" by (cases kg)
  from Cons.prems(1) kg obtain r0 rs0 where
    r0: "factory k g idx = Inr r0" and rs0: "build_resources factory (Suc idx) groups = Inr rs0"
    and rs: "rs = r0 # rs0"
    by (auto split: sum.splits)
  show ?case
  proof (cases "r = r0")
    case True
    then show ?thesis using r0 kg by auto
  next
    case False
    then have "r \<in> set rs0" using Cons.prems(2) rs by simp
    from Cons.IH [OF rs0 this] show ?thesis by auto
  qed
qed

lemma build_resources_groups:
  "build_resources factory idx groups = Inr rs \<Longrightarrow> (k, g) \<in> set groups \<Longrightarrow>
     \<exists>r i. r \<in> set rs \<and> factory k g i = Inr r"
proof (induction groups arbitrary: idx rs)
  case Nil
  then show ?case by simp
next
  case (Cons kg groups)
  obtain k0 g0 where kg: "kg = (k0, g0)" by (cases kg)
  from Cons.prems(1) kg obtain r0 rs0 where
    r0: "factory k0 g0 idx = Inr r0" and rs0: "build_resources factory (Suc idx) groups = Inr rs0"
    and rs: "rs = r0 # rs0"
    by (auto split: sum.splits)
  show ?case
  proof (cases "(k, g) = (k0, g0)")
    case True
    then show ?thesis using r0 rs by auto
  next
    case False
    then have "(k, g) \<in> set groups" using Cons.prems(2) kg by auto
    from Cons.IH [OF rs0 this] show ?thesis using rs by auto
  qed
qed

lemma if_fun_apply: "(if c then f else g) x = (if c then f x else g x)"
  by simp

lemma group_member:
  assumes "(k, g) \<in> set (group_pods key ps [])"
  shows "g = filter (\<lambda>p. key p = k) ps \<and> g \<noteq> []"
proof -
  have "\<forall>(k, g)\<in>set (group_pods key ps []). g = filter (\<lambda>p. key p = k) ps \<and> g \<noteq> []"
    by (rule group_pods_correct [of key ps, unfolded groups_of_def, THEN conjunct2, THEN conjunct1])
  from bspec [OF this assms, unfolded prod.case] show ?thesis .
qed

lemma group_cover:
  assumes "p \<in> set ps"
  shows "\<exists>g. (key p, g) \<in> set (group_pods key ps [])"
proof -
  have "\<forall>p\<in>set ps. key p \<in> fst ` set (group_pods key ps [])"
    by (rule group_pods_correct [of key ps, unfolded groups_of_def, THEN conjunct2, THEN conjunct2])
  from bspec [OF this assms] obtain kg where kg: "kg \<in> set (group_pods key ps [])" "key p = fst kg"
    by (rule imageE)
  have "kg = (key p, snd kg)" using kg(2) by simp
  with kg(1) have "(key p, snd kg) \<in> set (group_pods key ps [])" by simp
  then show ?thesis by (rule exI)
qed

lemma filter_and_group_Inr:
  assumes "filter_and_group tel applications desired = Inr rs" and "g \<in> set rs"
  defines "supplied \<equiv> truthy applications"
  defines "key \<equiv> (if supplied then app else paas)"
  defines "pts \<equiv> filter reports_all_metrics (map snd tel)"
  shows "\<exists>k i. (k, pods g) \<in> set (group_pods key pts []) \<and>
           create_resource (if supplied then Application else Cluster) k (pods g) i desired = Inr g"
proof -
  have sp: "split_pods_by_resource pts key
          (\<lambda>k ps idx. create_resource (if supplied then Application else Cluster) k ps idx desired) = Inr rs"
    using assms(1) unfolding filter_and_group_def Let_def supplied_def key_def pts_def
    by (auto split: if_splits)
  from build_resources_Inr [OF sp [unfolded split_pods_by_resource_def] assms(2)]
  obtain k ps i where mem: "(k, ps) \<in> set (group_pods key pts [])"
    and cr: "create_resource (if supplied then Application else Cluster) k ps i desired = Inr g"
    by auto
  from create_resource_Inr(3) [OF cr] have "pods g = ps" .
  with mem cr show ?thesis by blast
qed

lemma sum_nth:
  assumes "np_sum_axis0 (map f ps) = Inr s"
  shows "(\<forall>p\<in>set ps. length (f p) = length s) \<and>
         (\<forall>j<length s. s ! j = (\<Sum>p\<leftarrow>ps. f p ! j))"
proof (intro conjI ballI allI impI)
  fix p assume "p \<in> set ps"
  then have "f p \<in> set (map f ps)" by simp
  with np_sum_axis0_Inr(2) [OF assms] show "length (f p) = length s" by blast
next
  fix j assume "j < length s"
  with np_sum_axis0_Inr(3) [OF assms] have "s ! j = sum_list (map (\<lambda>r. r ! j) (map f ps))"
    by blast
  also have "map (\<lambda>r. r ! j) (map f ps) = map (\<lambda>p. f p ! j) ps"
    by (simp only: map_map comp_def)
  finally show "s ! j = (\<Sum>p\<leftarrow>ps. f p ! j)" .
qed

lemma mean_nth:
  assumes "np_mean_axis0 (map f ps) = Inr s"
  shows "(\<forall>p\<in>set ps. length (f p) = length s) \<and>
         (\<forall>j<length s. s ! j = (\<Sum>p\<leftarrow>ps. f p ! j) / real (length ps))"
proof (intro conjI ballI allI impI)
  fix p assume "p \<in> set ps"
  then have "f p \<in> set (map f ps)" by simp
  with np_mean_axis0_Inr(2) [OF assms] show "length (f p) = length s" by blast
next
  fix j assume "j < length s"
  with np_mean_axis0_Inr(3) [OF assms]
  have "s ! j = sum_list (map (\<lambda>r. r ! j) (map f ps)) / real (length (map f ps))"
    by blast
  also have "map (\<lambda>r. r ! j) (map f ps) = map (\<lambda>p. f p ! j) ps"
    by (simp only: map_map comp_def)
  finally show "s ! j = (\<Sum>p\<leftarrow>ps. f p ! j) / real (length ps)"
    by (simp only: length_map)
qed

text \<open>
  C4: every Application or Cluster resource returned by the retrieval owns exactly the
  filtered pods that share its grouping key, the key being the pod's app when the
  applications filter is truthy and the pod's paas otherwise; its requested_cpu and
  requested_memory are the elementwise sums and its cpu_util the elementwise mean over
  these pods.
\<close>

theorem group_resource_aggregates:
  assumes "retrieve_clusters timestamp responses desired [] = Inr tel"
    and "retrieve_telemetry_data timestamp desired responses applications = Inr rs"
    and "g \<in> set rs"
  shows "(\<exists>k. name g = Some k \<and> pods g \<noteq> [] \<and>
            pods g = filter (\<lambda>p. (if truthy applications then app p else paas p) = k)
                       (filter reports_all_metrics (map snd tel))) \<and>
         cls g = (if truthy applications then Application else Cluster) \<and>
         (\<forall>p\<in>set (pods g). length (requested_cpu p) = length (requested_cpu g) \<and>
                             length (requested_memory p) = length (requested_memory g) \<and>
                             length (cpu_util p) = length (cpu_util g)) \<and>
         (\<forall>j<length (requested_cpu g). requested_cpu g ! j = (\<Sum>p\<leftarrow>pods g. requested_cpu p ! j)) \<and>
         (\<forall>j<length (requested_memory g).
            requested_memory g ! j = (\<Sum>p\<leftarrow>pods g. requested_memory p ! j)) \<and>
         (\<forall>j<length (cpu_util g).
            cpu_util g ! j = (\<Sum>p\<leftarrow>pods g. cpu_util p ! j) / real (length (pods g)))"
proof -
  let ?supplied = "truthy applications"
  let ?key = "if ?supplied then app else paas"
  let ?pts = "filter reports_all_metrics (map snd tel)"
  have fg: "filter_and_group tel applications desired = Inr rs"
    using assms(1,2) by (simp add: retrieve_telemetry_data_def)
  from filter_and_group_Inr [OF fg assms(3)] obtain k i where
    mem: "(k, pods g) \<in> set (group_pods ?key ?pts [])"
    and cr: "create_resource (if ?supplied then Application else Cluster) k (pods g) i desired = Inr g"
    by auto
  have grp: "pods g = filter (\<lambda>p. ?key p = k) ?pts \<and> pods g \<noteq> []"
    using mem by (rule group_member)
  note c = create_resource_Inr [OF cr]
  have 1: "\<exists>k. name g = Some k \<and> pods g \<noteq> [] \<and>
            pods g = filter (\<lambda>p. (if ?supplied then app p else paas p) = k) ?pts"
  proof (intro exI conjI)
    show "name g = Some k" by (rule c(2))
    show "pods g \<noteq> []" using grp by (rule conjunct2)
    show "pods g = filter (\<lambda>p. (if ?supplied then app p else paas p) = k) ?pts"
      using grp unfolding if_fun_apply by (rule conjunct1)
  qed
  have 2: "cls g = (if ?supplied then Application else Cluster)" using c(1) .
  note s1 = sum_nth [OF c(6)] and s2 = sum_nth [OF c(7)] and s3 = mean_nth [OF c(8)]
  from s1 s2 s3 have 3: "\<forall>p\<in>set (pods g). length (requested_cpu p) = length (requested_cpu g) \<and>
                             length (requested_memory p) = length (requested_memory g) \<and>
                             length (cpu_util p) = length (cpu_util g)"
    by simp
  show ?thesis
    apply (intro conjI)
         apply (rule 1)
        apply (rule 2)
       apply (rule 3)
      apply (rule conjunct2 [OF s1])
     apply (rule conjunct2 [OF s2])
    apply (rule conjunct2 [OF s3])
    done
qed

text \<open>
  C5: after alignment the pods of the returned resources are exactly the pods whose
  requested_cpu, requested_memory and cpu_util are all non-empty, unchanged; and when no
  pod passes the filter the retrieval raises DataFetchError with the code
  DATA_FETCH_NO_RESULTS.
\<close>

theorem pods_missing_metric_dropped:
  assumes "retrieve_clusters timestamp responses desired [] = Inr tel"
  shows "(filter reports_all_metrics (map snd tel) = [] \<longrightarrow>
            retrieve_telemetry_data timestamp desired responses applications =
              Inl (DataFetchError DATA_FETCH_NO_RESULTS ''ArgosService''
                     ''no pods found after filtering telemetry data'')) \<and>
         (\<forall>rs. retrieve_telemetry_data timestamp desired responses applications = Inr rs \<longrightarrow>
            (\<Union>g\<in>set rs. set (pods g)) =
              {p \<in> snd ` set tel. requested_cpu p \<noteq> [] \<and> requested_memory p \<noteq> [] \<and> cpu_util p \<noteq> []})"
proof (intro conjI impI allI)
  assume "filter reports_all_metrics (map snd tel) = []"
  then show "retrieve_telemetry_data timestamp desired responses applications =
              Inl (DataFetchError DATA_FETCH_NO_RESULTS ''ArgosService''
                     ''no pods found after filtering telemetry data'')"
    using assms by (simp add: retrieve_telemetry_data_def filter_and_group_def)
next
  fix rs
  assume rs: "retrieve_telemetry_data timestamp desired responses applications = Inr rs"
  let ?supplied = "truthy applications"
  let ?key = "if ?supplied then app else paas"
  let ?pts = "filter reports_all_metrics (map snd tel)"
  let ?f = "\<lambda>k ps idx. create_resource (if ?supplied then Application else Cluster) k ps idx desired"
  have fg: "filter_and_group tel applications desired = Inr rs"
    using assms rs by (simp add: retrieve_telemetry_data_def)
  then have sp: "build_resources ?f 0 (group_pods ?key ?pts []) = Inr rs"
    unfolding filter_and_group_def Let_def split_pods_by_resource_def
    by (auto split: if_splits)
  have "(\<Union>g\<in>set rs. set (pods g)) = set ?pts"
  proof (intro equalityI subsetI)
    fix p assume "p \<in> (\<Union>g\<in>set rs. set (pods g))"
    then obtain g where g: "g \<in> set rs" and p: "p \<in> set (pods g)" by auto
    from filter_and_group_Inr [OF fg g] obtain k where
      "(k, pods g) \<in> set (group_pods ?key ?pts [])" by auto
    then have "pods g = filter (\<lambda>p. ?key p = k) ?pts" by (rule group_member [THEN conjunct1])
    with p show "p \<in> set ?pts" by simp
  next
    fix p assume p: "p \<in> set ?pts"
    from group_cover [OF p, of ?key]
    obtain grp where mem: "(?key p, grp) \<in> set (group_pods ?key ?pts [])" by blast
    from group_member [OF mem] have grp: "grp = filter (\<lambda>q. ?key q = ?key p) ?pts" by simp
    from build_resources_groups [OF sp mem] obtain r i where
      r: "r \<in> set rs" and cr: "?f (?key p) grp i = Inr r" by blast
    have "pods r = grp" using create_resource_Inr(3) [OF cr] .
    moreover have "p \<in> set grp" using p grp by simp
    ultimately show "p \<in> (\<Union>g\<in>set rs. set (pods g))" using r by blast
  qed
  then show "(\<Union>g\<in>set rs. set (pods g)) =
      {p \<in> snd ` set tel. requested_cpu p \<noteq> [] \<and> requested_memory p \<noteq> [] \<and> cpu_util p \<noteq> []}"
    by (auto simp: reports_all_metrics_def)
qed

lemma aligned_Pod_new: "aligned d (Pod_new u a p n nm ci pu d)"
  by (simp add: aligned_def Pod_new_def)

lemma aligned_store_series:
  "aligned d p \<Longrightarrow> length vl = length d \<Longrightarrow> aligned d (store_series ct vl p)"
  by (cases ct) (simp_all add: aligned_def)

lemma snd_set_setdefault: "snd ` set (setdefault d k v) \<subseteq> insert v (snd ` set d)"
  by (cases "map_of d k") (auto simp: setdefault_def)

lemma snd_set_modify_item:
  "p \<in> snd ` set (modify_item d k f) \<Longrightarrow> p \<in> snd ` set d \<or> (\<exists>q\<in>snd ` set d. p = f q)"
proof (induction d)
  case Nil
  then show ?case by (simp add: modify_item_def)
next
  case (Cons x d)
  obtain k' v where x: "x = (k', v)" by (cases x)
  have unfold: "modify_item (x # d) k f = (if k' = k then (k', f v) else (k', v)) # modify_item d k f"
    by (simp add: modify_item_def x)
  from Cons.prems have "p = (if k' = k then f v else v) \<or> p \<in> snd ` set (modify_item d k f)"
    unfolding unfold by (cases "k' = k") simp_all
  then show ?case
  proof
    assume "p = (if k' = k then f v else v)"
    then show ?thesis using x by (cases "k' = k") simp_all
  next
    assume "p \<in> snd ` set (modify_item d k f)"
    from Cons.IH [OF this] show ?thesis by auto
  qed
qed

lemma parse_pod_datum_aligned:
  assumes inv: "\<forall>p\<in>snd ` set tel. aligned d p"
    and len: "length (data_values data) \<le> length d"
    and ok: "parse_pod_datum timestamp d ct tel data = Inr tel'"
  shows "\<forall>p\<in>snd ` set tel'. aligned d p"
proof -
  from ok obtain ci where ci: "get_ci_from_paas (cluster_label data) = Inr ci"
    by (cases "get_ci_from_paas (cluster_label data)") (simp_all add: parse_pod_datum_def)
  let ?new = "Pod_new (uid data) (app_label data) (cluster_label data)
                 (namespace_label data) (pod_label data) ci PUE_AZURE d"
  let ?tel = "setdefault tel (uid data) ?new"
  let ?res = "if length (map fst (data_values data)) < length d
              then interpolate_field_data timestamp d (map fst (data_values data)) (map snd (data_values data))
              else Inr (map snd (data_values data))"
  from ok ci obtain vl where vl: "?res = Inr vl"
    and tel': "tel' = modify_item ?tel (uid data) (store_series ct vl)"
    by (cases ?res) (simp_all add: parse_pod_datum_def Let_def)
  have lvl: "length vl = length d"
  proof (cases "length (data_values data) < length d")
    case True
    with vl have "interpolate_field_data timestamp d (map fst (data_values data)) (map snd (data_values data)) = Inr vl"
      by simp
    then have "vl = map (interp_value (map fst (data_values data)) (map snd (data_values data)))
                      (map (\<lambda>t. timestamp (t + 3600)) d)"
      unfolding interpolate_field_data_def by (rule np_interp_Inr [THEN conjunct1])
    then show ?thesis by simp
  next
    case False
    with vl have "vl = map snd (data_values data)" by simp
    with False len show ?thesis by simp
  qed
  have 1: "\<forall>p\<in>snd ` set ?tel. aligned d p"
  proof
    fix p assume "p \<in> snd ` set ?tel"
    with snd_set_setdefault [of tel "uid data" ?new] have "p = ?new \<or> p \<in> snd ` set tel"
      by (simp only: subset_iff insert_iff)
    then show "aligned d p"
    proof
      assume "p = ?new" then show ?thesis by (simp only: aligned_Pod_new)
    next
      assume "p \<in> snd ` set tel" with inv show ?thesis by (rule bspec)
    qed
  qed
  show ?thesis
  proof
    fix p assume "p \<in> snd ` set tel'"
    then have "p \<in> snd ` set (modify_item ?tel (uid data) (store_series ct vl))"
      by (simp only: tel')
    then have "p \<in> snd ` set ?tel \<or> (\<exists>q\<in>snd ` set ?tel. p = store_series ct vl q)"
      by (rule snd_set_modify_item)
    then show "aligned d p"
    proof
      assume "p \<in> snd ` set ?tel"
      with 1 show ?thesis by (rule bspec)
    next
      assume "\<exists>q\<in>snd ` set ?tel. p = store_series ct vl q"
      then obtain q where q: "q \<in> snd ` set ?tel" and p: "p = store_series ct vl q" by (rule bexE)
      from 1 q have "aligned d q" by (rule bspec)
      then show ?thesis unfolding p using lvl by (rule aligned_store_series)
    qed
  qed
qed

lemma parse_pod_data_aligned:
  "\<forall>p\<in>snd ` set tel. aligned d p \<Longrightarrow>
   \<forall>data\<in>set pod_data. length (data_values data) \<le> length d \<Longrightarrow>
   parse_pod_data timestamp pod_data tel d ct = Inr tel' \<Longrightarrow>
   \<forall>p\<in>snd ` set tel'. aligned d p"
proof (induction pod_data arbitrary: tel)
  case Nil
  then show ?case by simp
next
  case (Cons data pod_data)
  from Cons.prems(3) obtain tel1 where
    t1: "parse_pod_datum timestamp d ct tel data = Inr tel1"
    and rest: "parse_pod_data timestamp pod_data tel1 d ct = Inr tel'"
    by (cases "parse_pod_datum timestamp d ct tel data") simp_all
  have "\<forall>p\<in>snd ` set tel1. aligned d p"
    using Cons.prems(1) _ t1 by (rule parse_pod_datum_aligned) (use Cons.prems(2) in simp)
  then show ?case
    using _ rest by (rule Cons.IH) (use Cons.prems(2) in simp)
qed

lemma run_tasks_aligned:
  "\<forall>p\<in>snd ` set tel. aligned d p \<Longrightarrow>
   \<forall>ct pod_data. q ct = Inr pod_data \<longrightarrow> (\<forall>data\<in>set pod_data. length (data_values data) \<le> length d) \<Longrightarrow>
   run_tasks timestamp q d cts tel = Inr tel' \<Longrightarrow>
   \<forall>p\<in>snd ` set tel'. aligned d p"
proof (induction cts arbitrary: tel)
  case Nil
  then show ?case by simp
next
  case (Cons ct cts)
  show ?case
  proof (cases "q ct")
    case (Inl e)
    with Cons.prems(3) have "tel' = tel" by (simp split: if_splits)
    with Cons.prems(1) show ?thesis by simp
  next
    case (Inr pod_data)
    with Cons.prems(3) obtain tel1 where
      t1: "parse_pod_data timestamp pod_data tel d ct = Inr tel1"
      and rest: "run_tasks timestamp q d cts tel1 = Inr tel'"
      by (cases "parse_pod_data timestamp pod_data tel d ct") simp_all
    have short: "\<forall>data\<in>set pod_data. length (data_values data) \<le> length d"
      using Cons.prems(2) Inr by blast
    have "\<forall>p\<in>snd ` set tel1. aligned d p"
      using Cons.prems(1) short t1 by (rule parse_pod_data_aligned)
    then show ?thesis
      using Cons.prems(2) rest by (rule Cons.IH)
  qed
qed

lemma retrieve_clusters_aligned:
  "\<forall>p\<in>snd ` set tel. aligned d p \<Longrightarrow>
   \<forall>q\<in>set responses. \<forall>ct pod_data. q ct = Inr pod_data \<longrightarrow>
      (\<forall>data\<in>set pod_data. length (data_values data) \<le> length d) \<Longrightarrow>
   retrieve_clusters timestamp responses d tel = Inr tel' \<Longrightarrow>
   \<forall>p\<in>snd ` set tel'. aligned d p"
proof (induction responses arbitrary: tel)
  case Nil
  then show ?case by simp
next
  case (Cons q responses)
  from Cons.prems(3) obtain tel1 where
    t1: "run_tasks timestamp q d tasks tel = Inr tel1"
    and rest: "retrieve_clusters timestamp responses d tel1 = Inr tel'"
    by (cases "run_tasks timestamp q d tasks tel") simp_all
  have qok: "\<forall>ct pod_data. q ct = Inr pod_data \<longrightarrow>
      (\<forall>data\<in>set pod_data. length (data_values data) \<le> length d)"
    using Cons.prems(2) by simp
  have "\<forall>p\<in>snd ` set tel1. aligned d p"
    using Cons.prems(1) qok t1 by (rule run_tasks_aligned)
  then show ?case
    using _ rest by (rule Cons.IH) (use Cons.prems(2) in simp)
qed

lemmas eval_defs =
  retrieve_telemetry_data_def tasks_def parse_pod_datum_def sample_series_def
  get_ci_from_paas_def extract_zone_from_paas_def upper_def upper_char_def
  remove_unnecessary_def is_digit_def ZONES_def calculate_ci_def CARBON_INTENSITY_EUROPE_def
  setdefault_def modify_item_def Pod_new_def PUE_AZURE_def
  interpolate_field_data_def np_interp_def interp_value_def
  filter_and_group_def reports_all_metrics_def truthy_def split_pods_by_resource_def
  append_to_group_def create_resource_def group_resource_new_def np_sum_axis0_def
  np_mean_axis0_def str_nat.simps Let_def utc_timestamp_def

lemma ci_paas1: "get_ci_from_paas ''paas1'' = Inr 281"
  by (simp add: eval_defs)

text \<open>
  C3 (as amended): when a pod's raw series for a metric is not empty and shorter than the
  desired grid, the series stored on the pod is the linear interpolation of the raw
  (timestamp, value) pairs at the epoch seconds of the desired timestamps shifted by one
  hour, the hour being added to the datetime before the conversion to epoch seconds; an
  empty raw series raises ValueError; and for a grid [t0, t1, t2] whose shifted
  timestamps are equally spaced in epoch seconds, with raw samples 1.0 at the epoch
  seconds of t0 + 1h and 3.0 at those of t2 + 1h, the aligned series is [1.0, 2.0, 3.0].
\<close>

theorem aligned_series_interpolated:
  assumes short: "length (data_values data) < length desired_timestamps"
    and ci: "get_ci_from_paas (cluster_label data) = Inr ci"
  shows "(data_values data \<noteq> [] \<longrightarrow>
            (\<exists>telemetries p.
               parse_pod_datum timestamp desired_timestamps consumption_type pod_telemetries data =
                 Inr telemetries \<and>
               map_of telemetries (uid data) = Some p \<and>
               series_of consumption_type p =
                 map (\<lambda>t. interp_value (map fst (data_values data)) (map snd (data_values data))
                            (timestamp (t + 3600))) desired_timestamps)) \<and>
         (data_values data = [] \<longrightarrow>
            parse_pod_datum timestamp desired_timestamps consumption_type pod_telemetries data =
              Inl (ValueError ''array of sample points is empty'')) \<and>
         (0 < step \<and> timestamp (t1 + 3600) = timestamp (t0 + 3600) + step \<and>
          timestamp (t2 + 3600) = timestamp (t0 + 3600) + 2 * step \<longrightarrow>
            interpolate_field_data timestamp [t0, t1, t2]
              [timestamp (t0 + 3600), timestamp (t2 + 3600)] [1, 3] = Inr [1, 2, 3])"
proof (intro conjI impI)
  assume "data_values data \<noteq> []"
  with short show "\<exists>telemetries p.
               parse_pod_datum timestamp desired_timestamps consumption_type pod_telemetries data =
                 Inr telemetries \<and>
               map_of telemetries (uid data) = Some p \<and>
               series_of consumption_type p =
                 map (\<lambda>t. interp_value (map fst (data_values data)) (map snd (data_values data))
                            (timestamp (t + 3600))) desired_timestamps"
    using ci by (rule interpolated_series)
next
  assume "data_values data = []"
  with short show "parse_pod_datum timestamp desired_timestamps consumption_type pod_telemetries data =
              Inl (ValueError ''array of sample points is empty'')"
    using ci by (rule empty_series_raises)
next
  assume "0 < step \<and> timestamp (t1 + 3600) = timestamp (t0 + 3600) + step \<and>
          timestamp (t2 + 3600) = timestamp (t0 + 3600) + 2 * step"
  then have "0 < step" and "timestamp (t1 + 3600) = timestamp (t0 + 3600) + step"
    and "timestamp (t2 + 3600) = timestamp (t0 + 3600) + 2 * step"
    by simp_all
  then show "interpolate_field_data timestamp [t0, t1, t2]
              [timestamp (t0 + 3600), timestamp (t2 + 3600)] [1, 3] = Inr [1, 2, 3]"
    by (rule interpolation_example)
qed

text \<open>
  C3 (as amended) in a process whose local zone is UTC, on the grid 2023-01-01 00:00,
  01:00, 02:00 of the repository's test: with raw samples at 01:00 and 03:00, and with
  no raw sample.
\<close>

theorem aligned_series_interpolated_witness:
  "(\<exists>telemetries p.
      parse_pod_datum utc_timestamp [1672531200, 1672534800, 1672538400] CPU_UTIL []
        (sample_series ''uid1'' ''app1'' ''paas1'' [(1672534800, 1), (1672542000, 3)])
        = Inr telemetries \<and>
      map_of telemetries ''uid1'' = Some p \<and> cpu_util p = [1, 2, 3]) \<and>
   parse_pod_datum utc_timestamp [1672531200, 1672534800, 1672538400] CPU_UTIL []
     (sample_series ''uid1'' ''app1'' ''paas1'' [])
     = Inl (ValueError ''array of sample points is empty'') \<and>
   interpolate_field_data utc_timestamp [1672531200, 1672534800, 1672538400]
     [utc_timestamp (1672531200 + 3600), utc_timestamp (1672538400 + 3600)] [1, 3]
     = Inr [1, 2, 3]"
proof -
  let ?D = "sample_series ''uid1'' ''app1'' ''paas1'' [(1672534800, 1), (1672542000, 3)]"
  let ?E = "sample_series ''uid1'' ''app1'' ''paas1'' []"
  let ?G = "[1672531200, 1672534800, 1672538400 :: real]"
  have d1: "length (data_values ?D) < length ?G"
    by (simp add: sample_series_def)
  have d2: "get_ci_from_paas (cluster_label ?D) = Inr 281"
    by (simp add: sample_series_def ci_paas1)
  have d3: "data_values ?D \<noteq> []"
    by (simp add: sample_series_def)
  have e1: "length (data_values ?E) < length ?G"
    by (simp add: sample_series_def)
  have e2: "get_ci_from_paas (cluster_label ?E) = Inr 281"
    by (simp add: sample_series_def ci_paas1)
  have e3: "data_values ?E = []"
    by (simp add: sample_series_def)
  have x: "(0 :: real) < 3600 \<and>
      utc_timestamp (1672534800 + 3600) = utc_timestamp (1672531200 + 3600) + 3600 \<and>
      utc_timestamp (1672538400 + 3600) = utc_timestamp (1672531200 + 3600) + 2 * 3600"
    by (simp add: utc_timestamp_def)
  note D = aligned_series_interpolated [OF d1 d2, where timestamp = utc_timestamp
      and consumption_type = CPU_UTIL and pod_telemetries = "[]" and step = 3600
      and ?t0.0 = 1672531200 and ?t1.0 = 1672534800 and ?t2.0 = 1672538400]
  note E = aligned_series_interpolated [OF e1 e2, where timestamp = utc_timestamp
      and consumption_type = CPU_UTIL and pod_telemetries = "[]"]
  from D [THEN conjunct1, rule_format, OF d3] obtain telemetries p where
    t: "parse_pod_datum utc_timestamp ?G CPU_UTIL [] ?D = Inr telemetries"
    and p: "map_of telemetries (uid ?D) = Some p"
    and s: "series_of CPU_UTIL p =
              map (\<lambda>t. interp_value (map fst (data_values ?D)) (map snd (data_values ?D))
                         (utc_timestamp (t + 3600))) ?G"
    by blast
  from s have "cpu_util p = [1, 2, 3]"
    by (simp add: sample_series_def interp_value_def utc_timestamp_def)
  moreover from p have "map_of telemetries ''uid1'' = Some p"
    by (simp add: sample_series_def)
  ultimately have 1: "\<exists>telemetries p.
      parse_pod_datum utc_timestamp ?G CPU_UTIL [] ?D = Inr telemetries \<and>
      map_of telemetries ''uid1'' = Some p \<and> cpu_util p = [1, 2, 3]"
    using t by blast
  note 2 = E [THEN conjunct2, THEN conjunct1, rule_format, OF e3]
  note 3 = D [THEN conjunct2, THEN conjunct2, rule_format, OF x]
  from 1 2 3 show ?thesis
    by (intro conjI)
qed

text \<open>
  C3 as stated fails where the local UTC offset changes inside the grid: in a process
  whose local zone is Europe/Paris, on the hourly grid 2023-10-29 01:00, 02:00, 03:00,
  the shifted timestamps are 00:00, 02:00 and 03:00 UTC, so with raw samples 1.0 at
  t0 + 1h and 3.0 at t2 + 1h the aligned series is [1, 7/3, 3] and not [1, 2, 3].
\<close>

theorem interpolation_dst_counterexample:
  "map (\<lambda>t. paris_timestamp (t + 3600)) [1698541200, 1698544800, 1698548400] =
     [1698537600, 1698544800, 1698548400] \<and>
   interpolate_field_data paris_timestamp [1698541200, 1698544800, 1698548400]
     [paris_timestamp (1698541200 + 3600), paris_timestamp (1698548400 + 3600)] [1, 3]
     = Inr [1, 7 / 3, 3] \<and>
   (case parse_pod_datum paris_timestamp [1698541200, 1698544800, 1698548400] CPU_UTIL []
           (sample_series ''uid1'' ''app1'' ''paas1'' [(1698537600, 1), (1698548400, 3)]) of
      Inl e \<Rightarrow> []
    | Inr telemetries \<Rightarrow> map (\<lambda>(u, p). cpu_util p) telemetries) = [[1, 7 / 3, 3]]"
  by (simp add: eval_defs paris_timestamp_def)

lemmas eval_defs2 = eval_defs sample_query_def cpu_only_query_def

lemmas group_defs =
  filter_and_group_def reports_all_metrics_def truthy_def split_pods_by_resource_def
  append_to_group_def modify_item_def create_resource_def group_resource_new_def
  np_sum_axis0_def np_mean_axis0_def str_nat.simps Let_def sample_pod_def Pod_new_def

lemma sample_telemetries:
  "retrieve_clusters utc_timestamp [sample_query] [0] [] =
     Inr [(''0'', sample_pod ''0'' ''app1'' ''paas1'' [3 / 10] [50] [0]),
          (''1'', sample_pod ''1'' ''app2'' ''paas1'' [4 / 10] [50] [50]),
          (''2'', sample_pod ''2'' ''app1'' ''paas2'' [6 / 10] [0] [50]),
          (''3'', sample_pod ''3'' ''app2'' ''paas2'' [5 / 10] [10] [])]"
  by (simp add: eval_defs2 sample_pod_def)

lemma cpu_only_telemetries:
  "retrieve_clusters utc_timestamp [cpu_only_query] [0] [] =
     Inr [(''pod1'', sample_pod ''pod1'' ''app1'' ''paas1'' [5 / 10] [] [])]"
  by (simp add: eval_defs2 sample_pod_def)

lemma sample_clusters:
  "map (\<lambda>g. (cls g, name g, map res_id (pods g), requested_cpu g, requested_memory g, cpu_util g))
     (projr (retrieve_telemetry_data utc_timestamp [0] [sample_query] None))
   = [(Cluster, Some ''paas1'', [''0'', ''1''], [100], [50], [7 / 20]),
      (Cluster, Some ''paas2'', [''2''], [0], [50], [6 / 10])]"
  unfolding retrieve_telemetry_data_def sample_telemetries
  by (simp add: group_defs)

lemma sample_applications:
  "map (\<lambda>g. (cls g, name g, map res_id (pods g), requested_cpu g, requested_memory g, cpu_util g))
     (projr (retrieve_telemetry_data utc_timestamp [0] [sample_query] (Some [''app1''])))
   = [(Application, Some ''app1'', [''0'', ''2''], [50], [50], [9 / 20]),
      (Application, Some ''app2'', [''1''], [50], [50], [4 / 10])]"
  unfolding retrieve_telemetry_data_def sample_telemetries
  by (simp add: group_defs)

text \<open>C4 on the sample pods, grouped by paas: the first cluster owns pods 0 and 1.\<close>

theorem group_resource_aggregates_witness:
  "\<exists>tel rs. retrieve_clusters utc_timestamp [sample_query] [0] [] = Inr tel \<and>
      retrieve_telemetry_data utc_timestamp [0] [sample_query] None = Inr rs \<and>
      hd rs \<in> set rs \<and> cls (hd rs) = Cluster \<and> name (hd rs) = Some ''paas1'' \<and>
      map res_id (pods (hd rs)) = [''0'', ''1''] \<and>
      requested_cpu (hd rs) ! 0 = 100 \<and> requested_memory (hd rs) ! 0 = 50 \<and>
      cpu_util (hd rs) ! 0 = 7 / 20"
proof -
  define tel where "tel = projr (retrieve_clusters utc_timestamp [sample_query] [0] [])"
  define rs where "rs = projr (retrieve_telemetry_data utc_timestamp [0] [sample_query] None)"
  have h1: "retrieve_clusters utc_timestamp [sample_query] [0] [] = Inr tel"
    unfolding tel_def sample_telemetries by simp
  have h2: "retrieve_telemetry_data utc_timestamp [0] [sample_query] None = Inr rs"
    unfolding rs_def retrieve_telemetry_data_def sample_telemetries by (simp add: group_defs)
  have ev: "hd rs \<in> set rs \<and> map res_id (pods (hd rs)) = [''0'', ''1''] \<and>
      map requested_cpu (pods (hd rs)) = [[50], [50]] \<and>
      map requested_memory (pods (hd rs)) = [[0], [50]] \<and>
      map cpu_util (pods (hd rs)) = [[3 / 10], [4 / 10]] \<and>
      length (requested_cpu (hd rs)) = 1 \<and> length (requested_memory (hd rs)) = 1 \<and>
      length (cpu_util (hd rs)) = 1 \<and> name (hd rs) = Some ''paas1'' \<and>
      length (pods (hd rs)) = 2"
    unfolding rs_def retrieve_telemetry_data_def sample_telemetries by (simp add: group_defs)
  then have h3: "hd rs \<in> set rs" by (rule conjunct1)
  have sums: "\<And>f. (\<Sum>p\<leftarrow>pods (hd rs). f p ! 0) = sum_list (map (\<lambda>r. r ! 0) (map f (pods (hd rs))))"
    by (simp only: map_map comp_def)
  note c4 = group_resource_aggregates [OF h1 h2 h3]
  note c4_cls = c4 [THEN conjunct2, THEN conjunct1]
  note c4_cpu = c4 [THEN conjunct2, THEN conjunct2, THEN conjunct2, THEN conjunct1, rule_format, of 0]
  note c4_mem = c4 [THEN conjunct2, THEN conjunct2, THEN conjunct2, THEN conjunct2, THEN conjunct1,
    rule_format, of 0]
  note c4_util = c4 [THEN conjunct2, THEN conjunct2, THEN conjunct2, THEN conjunct2, THEN conjunct2,
    rule_format, of 0]
  have "cls (hd rs) = Cluster"
    using c4_cls by (simp add: truthy_def)
  moreover have "requested_cpu (hd rs) ! 0 = 100"
    using c4_cpu ev unfolding sums by simp
  moreover have "requested_memory (hd rs) ! 0 = 50"
    using c4_mem ev unfolding sums by simp
  moreover have "cpu_util (hd rs) ! 0 = 7 / 20"
    using c4_util ev unfolding sums by simp
  ultimately show ?thesis
    using h1 h2 ev by (intro exI [of _ tel] exI [of _ rs]) simp
qed

text \<open>
  C5 on a cluster whose only pod lacks two metrics (the no-data error) and on the sample
  pods (pod 3, without requested memory, is dropped).
\<close>

theorem pods_missing_metric_dropped_witness:
  "(\<exists>tel. retrieve_clusters utc_timestamp [cpu_only_query] [0] [] = Inr tel \<and>
      map fst tel = [''pod1''] \<and>
      filter reports_all_metrics (map snd tel) = [] \<and>
      retrieve_telemetry_data utc_timestamp [0] [cpu_only_query] None =
        Inl (DataFetchError DATA_FETCH_NO_RESULTS ''ArgosService''
               ''no pods found after filtering telemetry data'')) \<and>
   (\<exists>tel rs. retrieve_clusters utc_timestamp [sample_query] [0] [] = Inr tel \<and>
      map fst tel = [''0'', ''1'', ''2'', ''3''] \<and>
      retrieve_telemetry_data utc_timestamp [0] [sample_query] None = Inr rs \<and>
      (\<Union>g\<in>set rs. set (pods g)) =
         {p \<in> snd ` set tel. requested_cpu p \<noteq> [] \<and> requested_memory p \<noteq> [] \<and> cpu_util p \<noteq> []} \<and>
      map res_id (concat (map pods rs)) = [''0'', ''1'', ''2''])"
proof
  define tel where "tel = projr (retrieve_clusters utc_timestamp [cpu_only_query] [0] [])"
  have h: "retrieve_clusters utc_timestamp [cpu_only_query] [0] [] = Inr tel"
    unfolding tel_def cpu_only_telemetries by simp
  have e: "filter reports_all_metrics (map snd tel) = [] \<and> map fst tel = [''pod1'']"
    unfolding tel_def cpu_only_telemetries
    by (simp add: reports_all_metrics_def sample_pod_def Pod_new_def)
  from pods_missing_metric_dropped [OF h, of None, THEN conjunct1] e
  have "retrieve_telemetry_data utc_timestamp [0] [cpu_only_query] None =
        Inl (DataFetchError DATA_FETCH_NO_RESULTS ''ArgosService''
               ''no pods found after filtering telemetry data'')"
    by simp
  with h e show "\<exists>tel. retrieve_clusters utc_timestamp [cpu_only_query] [0] [] = Inr tel \<and>
      map fst tel = [''pod1''] \<and>
      filter reports_all_metrics (map snd tel) = [] \<and>
      retrieve_telemetry_data utc_timestamp [0] [cpu_only_query] None =
        Inl (DataFetchError DATA_FETCH_NO_RESULTS ''ArgosService''
               ''no pods found after filtering telemetry data'')"
    by (intro exI [of _ tel]) simp
next
  define tel where "tel = projr (retrieve_clusters utc_timestamp [sample_query] [0] [])"
  define rs where "rs = projr (retrieve_telemetry_data utc_timestamp [0] [sample_query] None)"
  have h1: "retrieve_clusters utc_timestamp [sample_query] [0] [] = Inr tel"
    unfolding tel_def sample_telemetries by simp
  have h2: "retrieve_telemetry_data utc_timestamp [0] [sample_query] None = Inr rs"
    unfolding rs_def retrieve_telemetry_data_def sample_telemetries by (simp add: group_defs)
  have e1: "map fst tel = [''0'', ''1'', ''2'', ''3'']"
    unfolding tel_def sample_telemetries by simp
  have e2: "map res_id (concat (map pods rs)) = [''0'', ''1'', ''2'']"
    unfolding rs_def retrieve_telemetry_data_def sample_telemetries by (simp add: group_defs)
  from pods_missing_metric_dropped [OF h1, of None, THEN conjunct2, rule_format, OF h2]
  have "(\<Union>g\<in>set rs. set (pods g)) =
         {p \<in> snd ` set tel. requested_cpu p \<noteq> [] \<and> requested_memory p \<noteq> [] \<and> cpu_util p \<noteq> []}" .
  with h1 h2 e1 e2 show "\<exists>tel rs. retrieve_clusters utc_timestamp [sample_query] [0] [] = Inr tel \<and>
      map fst tel = [''0'', ''1'', ''2'', ''3''] \<and>
      retrieve_telemetry_data utc_timestamp [0] [sample_query] None = Inr rs \<and>
      (\<Union>g\<in>set rs. set (pods g)) =
         {p \<in> snd ` set tel. requested_cpu p \<noteq> [] \<and> requested_memory p \<noteq> [] \<and> cpu_util p \<noteq> []} \<and>
      map res_id (concat (map pods rs)) = [''0'', ''1'', ''2'']"
    by (intro exI [of _ tel] exI [of _ rs]) (simp only: simp_thms)
qed

text \<open>
  C9 (as amended): when no raw series has more samples than the desired grid, every
  returned Application or Cluster resource and every pod it owns has the grid as time
  points, cpu_util, requested_cpu and requested_memory of the length of the grid, and
  every other per-time-point array empty (the pod's storage capacity empty or of the
  length of the grid); and a raw series with exactly as many samples as the grid is
  stored without interpolation, the stored series being the raw values.
\<close>

theorem aligned_series_lengths:
  assumes ok: "retrieve_telemetry_data timestamp desired responses applications = Inr rs"
    and short: "\<forall>q\<in>set responses. \<forall>ct pod_data. q ct = Inr pod_data \<longrightarrow>
                  (\<forall>data\<in>set pod_data. length (data_values data) \<le> length desired)"
    and g: "g \<in> set rs"
  shows "(\<forall>ct tel data ci.
            length (data_values data) = length desired \<and>
            get_ci_from_paas (cluster_label data) = Inr ci \<longrightarrow>
            (\<exists>tel' p. parse_pod_datum timestamp desired ct tel data = Inr tel' \<and>
               map_of tel' (uid data) = Some p \<and>
               series_of ct p = map snd (data_values data))) \<and>
         time_points g = desired \<and>
         length (cpu_util g) = length desired \<and>
         length (requested_cpu g) = length desired \<and>
         length (requested_memory g) = length desired \<and>
         storage_capacity g = [] \<and> network_io g = [] \<and>
         energy_consumed g = [] \<and> carbon_operational g = [] \<and> carbon_embodied g = [] \<and>
         carbon_emitted g = [] \<and> cpu_energy g = [] \<and> memory_energy g = [] \<and> cpu_power g = [] \<and>
         (\<forall>p\<in>set (pods g).
            time_points p = desired \<and>
            length (cpu_util p) = length desired \<and>
            length (requested_cpu p) = length desired \<and>
            length (requested_memory p) = length desired \<and>
            (length (storage_capacity p) = length desired \<or> storage_capacity p = []) \<and>
            network_io p = [] \<and>
            energy_consumed p = [] \<and> carbon_operational p = [] \<and> carbon_embodied p = [] \<and>
            carbon_emitted p = [] \<and> cpu_energy p = [] \<and> memory_energy p = [] \<and>
            cpu_power p = [])"
proof -
  from ok obtain tel where tel: "retrieve_clusters timestamp responses desired [] = Inr tel"
    and fg: "filter_and_group tel applications desired = Inr rs"
    by (cases "retrieve_clusters timestamp responses desired []")
       (simp_all add: retrieve_telemetry_data_def)
  have inv: "\<forall>p\<in>snd ` set tel. aligned desired p"
    using _ short tel by (rule retrieve_clusters_aligned) simp
  let ?key = "if truthy applications then app else paas"
  let ?pts = "filter reports_all_metrics (map snd tel)"
  from filter_and_group_Inr [OF fg g] obtain k i where
    mem: "(k, pods g) \<in> set (group_pods ?key ?pts [])"
    and cr: "create_resource (if truthy applications then Application else Cluster) k (pods g) i desired = Inr g"
    by blast
  note gm = group_member [OF mem]
  have sub: "pods g = filter (\<lambda>p. ?key p = k) ?pts" using gm by (rule conjunct1)
  have ne: "pods g \<noteq> []" using gm by (rule conjunct2)
  have pod: "aligned desired p \<and> reports_all_metrics p" if "p \<in> set (pods g)" for p
  proof -
    from that have "p \<in> set (filter (\<lambda>p. ?key p = k) ?pts)" by (simp only: sub [symmetric])
    then have p: "p \<in> set ?pts" by (simp only: set_filter mem_Collect_eq)
    then have "p \<in> snd ` set tel" and r: "reports_all_metrics p" by auto
    with inv have "aligned desired p" by (rule_tac bspec)
    with r show ?thesis by (rule_tac conjI)
  qed
  have podlen: "time_points p = desired \<and>
            length (cpu_util p) = length desired \<and>
            length (requested_cpu p) = length desired \<and>
            length (requested_memory p) = length desired \<and>
            (length (storage_capacity p) = length desired \<or> storage_capacity p = []) \<and>
            network_io p = [] \<and>
            energy_consumed p = [] \<and> carbon_operational p = [] \<and> carbon_embodied p = [] \<and>
            carbon_emitted p = [] \<and> cpu_energy p = [] \<and> memory_energy p = [] \<and>
            cpu_power p = []" if "p \<in> set (pods g)" for p
    using pod [OF that] unfolding aligned_def reports_all_metrics_def by blast
  from ne obtain p0 where p0: "p0 \<in> set (pods g)" by (cases "pods g") auto
  note c = create_resource_Inr [OF cr]
  have l1: "length (requested_cpu g) = length desired"
    using sum_nth [OF c(6), THEN conjunct1, rule_format, OF p0] podlen [OF p0] by simp
  have l2: "length (requested_memory g) = length desired"
    using sum_nth [OF c(7), THEN conjunct1, rule_format, OF p0] podlen [OF p0] by simp
  have l3: "length (cpu_util g) = length desired"
    using mean_nth [OF c(8), THEN conjunct1, rule_format, OF p0] podlen [OF p0] by simp
  have pods_ok: "\<forall>p\<in>set (pods g).
            time_points p = desired \<and>
            length (cpu_util p) = length desired \<and>
            length (requested_cpu p) = length desired \<and>
            length (requested_memory p) = length desired \<and>
            (length (storage_capacity p) = length desired \<or> storage_capacity p = []) \<and>
            network_io p = [] \<and>
            energy_consumed p = [] \<and> carbon_operational p = [] \<and> carbon_embodied p = [] \<and>
            carbon_emitted p = [] \<and> cpu_energy p = [] \<and> memory_energy p = [] \<and>
            cpu_power p = []"
    using podlen by (rule ballI)
  have lengths: "time_points g = desired \<and>
         length (cpu_util g) = length desired \<and>
         length (requested_cpu g) = length desired \<and>
         length (requested_memory g) = length desired \<and>
         storage_capacity g = [] \<and> network_io g = [] \<and>
         energy_consumed g = [] \<and> carbon_operational g = [] \<and> carbon_embodied g = [] \<and>
         carbon_emitted g = [] \<and> cpu_energy g = [] \<and> memory_energy g = [] \<and> cpu_power g = [] \<and>
         (\<forall>p\<in>set (pods g).
            time_points p = desired \<and>
            length (cpu_util p) = length desired \<and>
            length (requested_cpu p) = length desired \<and>
            length (requested_memory p) = length desired \<and>
            (length (storage_capacity p) = length desired \<or> storage_capacity p = []) \<and>
            network_io p = [] \<and>
            energy_consumed p = [] \<and> carbon_operational p = [] \<and> carbon_embodied p = [] \<and>
            carbon_emitted p = [] \<and> cpu_energy p = [] \<and> memory_energy p = [] \<and>
            cpu_power p = [])"
    using c(4) l3 l1 l2 c(16) c(17) c(9) c(10) c(11) c(12) c(13) c(14) c(15) pods_ok
    by (simp only: simp_thms)
  have equal: "\<forall>ct tel data ci.
            length (data_values data) = length desired \<and>
            get_ci_from_paas (cluster_label data) = Inr ci \<longrightarrow>
            (\<exists>tel' p. parse_pod_datum timestamp desired ct tel data = Inr tel' \<and>
               map_of tel' (uid data) = Some p \<and>
               series_of ct p = map snd (data_values data))"
  proof (intro allI impI)
    fix ct :: HardwareConsumptionType and tel :: "(string \<times> pod) list" and data :: pod_series
      and ci :: real
    assume "length (data_values data) = length desired \<and>
            get_ci_from_paas (cluster_label data) = Inr ci"
    then have "length desired \<le> length (data_values data)"
      and "get_ci_from_paas (cluster_label data) = Inr ci"
      by simp_all
    then show "\<exists>tel' p. parse_pod_datum timestamp desired ct tel data = Inr tel' \<and>
               map_of tel' (uid data) = Some p \<and>
               series_of ct p = map snd (data_values data)"
      by (rule stored_as_is)
  qed
  from equal lengths show ?thesis
    by (rule conjI)
qed

text \<open>
  C9 (as amended) on a pod whose CPU utilisation is interpolated from two samples and
  whose requested cores have as many samples as the grid.
\<close>

theorem aligned_series_lengths_witness:
  "(\<exists>rs. retrieve_telemetry_data utc_timestamp [1672531200, 1672534800, 1672538400] [interp_query] None = Inr rs \<and>
      hd rs \<in> set rs \<and>
      time_points (hd rs) = [1672531200, 1672534800, 1672538400] \<and>
      cpu_util (hd rs) = [1, 2, 3] \<and>
      length (requested_cpu (hd rs)) = 3 \<and> length (requested_memory (hd rs)) = 3 \<and>
      energy_consumed (hd rs) = [] \<and>
      map cpu_util (pods (hd rs)) = [[1, 2, 3]]) \<and>
   (\<exists>tel' p.
      parse_pod_datum utc_timestamp [1672531200, 1672534800, 1672538400] REQUESTED_CORES []
        (sample_series ''uid1'' ''app1'' ''paas1''
           [(1672534800, 2), (1672538400, 5), (1672542000, 2)]) = Inr tel' \<and>
      map_of tel' ''uid1'' = Some p \<and> requested_cpu p = [2, 5, 2])"
proof -
  let ?G = "[1672531200, 1672534800, 1672538400 :: real]"
  let ?D = "sample_series ''uid1'' ''app1'' ''paas1''
              [(1672534800, 2), (1672538400, 5), (1672542000, 2)]"
  define rs where "rs = projr (retrieve_telemetry_data utc_timestamp ?G [interp_query] None)"
  have ev: "retrieve_telemetry_data utc_timestamp ?G [interp_query] None = Inr rs \<and> hd rs \<in> set rs \<and>
      cpu_util (hd rs) = [1, 2, 3] \<and> map cpu_util (pods (hd rs)) = [[1, 2, 3]]"
    unfolding rs_def by (simp add: eval_defs interp_query_def utc_timestamp_def)
  have short: "\<forall>q\<in>set [interp_query]. \<forall>ct pod_data. q ct = Inr pod_data \<longrightarrow>
                  (\<forall>data\<in>set pod_data. length (data_values data) \<le> length ?G)"
  proof (intro ballI allI impI)
    fix q ct pod_data data
    assume "q \<in> set [interp_query]" "q ct = Inr pod_data" "data \<in> set pod_data"
    then show "length (data_values data) \<le> length ?G"
      by (cases ct) (auto simp: interp_query_def sample_series_def)
  qed
  from ev have h1: "retrieve_telemetry_data utc_timestamp ?G [interp_query] None = Inr rs"
    and h3: "hd rs \<in> set rs" by simp_all
  note t = aligned_series_lengths [OF h1 short h3]
  from t [THEN conjunct2] have
    "time_points (hd rs) = ?G \<and> length (requested_cpu (hd rs)) = 3 \<and>
     length (requested_memory (hd rs)) = 3 \<and> energy_consumed (hd rs) = []"
    by simp
  with ev have 1: "\<exists>rs. retrieve_telemetry_data utc_timestamp ?G [interp_query] None = Inr rs \<and>
      hd rs \<in> set rs \<and>
      time_points (hd rs) = ?G \<and>
      cpu_util (hd rs) = [1, 2, 3] \<and>
      length (requested_cpu (hd rs)) = 3 \<and> length (requested_memory (hd rs)) = 3 \<and>
      energy_consumed (hd rs) = [] \<and>
      map cpu_util (pods (hd rs)) = [[1, 2, 3]]"
    by (intro exI [of _ rs]) simp
  have d: "length (data_values ?D) = length ?G \<and> get_ci_from_paas (cluster_label ?D) = Inr 281"
    by (simp add: sample_series_def ci_paas1)
  from t [THEN conjunct1, rule_format, OF d, of REQUESTED_CORES "[]"] obtain tel' p where
    "parse_pod_datum utc_timestamp ?G REQUESTED_CORES [] ?D = Inr tel'"
    and "map_of tel' (uid ?D) = Some p"
    and "series_of REQUESTED_CORES p = map snd (data_values ?D)"
    by blast
  then have 2: "\<exists>tel' p. parse_pod_datum utc_timestamp ?G REQUESTED_CORES [] ?D = Inr tel' \<and>
      map_of tel' ''uid1'' = Some p \<and> requested_cpu p = [2, 5, 2]"
    by (intro exI [of _ tel'] exI [of _ p]) (simp add: sample_series_def)
  from 1 2 show ?thesis
    by (rule conjI)
qed

text \<open>
  C9 as stated fails: a raw series of three samples on a grid of two time points is
  stored as it is, so the pod and its cluster have cpu_util, requested_cpu and
  requested_memory of length 3 and time_points of length 2.
\<close>

theorem overlong_series_counterexample:
  "(case retrieve_telemetry_data utc_timestamp [0, 60]
           [\<lambda>ct. Inr [sample_series ''uid1'' ''app1'' ''paas1'' [(3600, 1), (3630, 2), (3660, 3)]]]
           None of
      Inl e \<Rightarrow> []
    | Inr rs \<Rightarrow>
        map (\<lambda>g. (length (time_points g), length (cpu_util g), length (requested_cpu g),
                   length (requested_memory g),
                   map (\<lambda>p. (length (time_points p), length (cpu_util p))) (pods g))) rs)
   = [(2, 3, 3, 3, [(2, 3)])]"
  by (simp add: eval_defs utc_timestamp_def)

section \<open>Properties of the Impact Framework services\<close>

lemma setattr_obj_id: "setattr r f v = Inr r' \<Longrightarrow> obj_id r' = obj_id r"
  by (auto simp: setattr_def split: option.splits)

lemma map_entries_obj_id: "obj_id (fst (map_entries es m r)) = obj_id r"
proof (induction es m r rule: map_entries.induct)
  case (1 metrics r)
  then show ?case by simp
next
  case (2 metric_key obs_attr agg_attr rest metrics r)
  then show ?case
    by (auto simp: setattr_def split: option.splits sum.splits)
qed

lemma process_resource_obj_id: "obj_id (process_resource if_out r) = obj_id r"
  by (simp add: process_resource_def map_metrics_to_resource_def map_entries_obj_id split: sum.splits)

lemma aggregate_app_level_length:
  "length (fst (aggregate_app_level rs if_out)) = length rs"
  by (induction rs) (auto split: sum.splits prod.splits option.splits)

lemma aggregate_app_level_obj_id:
  "map obj_id (fst (aggregate_app_level rs if_out)) = map obj_id rs"
proof (induction rs)
  case Nil
  then show ?case by simp
next
  case (Cons r rs)
  have "\<And>m r' e. map_metrics_to_resource m r = (r', e) \<Longrightarrow> obj_id r' = obj_id r"
  proof -
    fix m r' e
    assume "map_metrics_to_resource m r = (r', e)"
    then have "fst (map_entries METRICS_MAPPER m r) = r'"
      by (simp add: map_metrics_to_resource_def)
    then show "obj_id r' = obj_id r"
      using map_entries_obj_id [of METRICS_MAPPER m r] by simp
  qed
  with Cons show ?case
    by (auto split: sum.splits prod.splits option.splits)
qed

lemma aggregate_app_level_ok:
  "aggregate_app_level rs if_out = (rs', None) \<Longrightarrow> rs' = map (process_resource if_out) rs"
  by (induction rs arbitrary: rs')
     (auto simp: process_resource_def split: sum.splits prod.splits option.splits)

lemma parse_if_output_length:
  "length (fst (parse_if_output if_out rs k)) = length rs"
  by (simp add: parse_if_output_def aggregate_app_level_length)

lemma parse_if_output_obj_id:
  "map obj_id (fst (parse_if_output if_out rs k)) = map obj_id rs"
  by (simp add: parse_if_output_def aggregate_app_level_obj_id)

lemma parse_if_output_ok:
  "parse_if_output if_out rs k = (rs', None) \<Longrightarrow> rs' = map (process_resource (tree_children if_out)) rs"
  by (auto simp: parse_if_output_def aggregate_app_level_ok split: if_splits)

lemma process_chunk_length: "length (process_chunk run_if k chunk) = length chunk"
  by (simp add: process_chunk_def parse_if_output_length split: sum.splits)

lemma write_back_nth:
  "offset + i + length chunk \<le> length vms \<Longrightarrow>
     snd (write_back vms offset i chunk) = None \<and>
     length (fst (write_back vms offset i chunk)) = length vms \<and>
     (\<forall>j<length vms. fst (write_back vms offset i chunk) ! j =
        (if offset + i \<le> j \<and> j < offset + i + length chunk then chunk ! (j - (offset + i))
         else vms ! j))"
proof (induction chunk arbitrary: vms i)
  case Nil
  then show ?case by auto
next
  case (Cons vm chunk)
  let ?vms = "vms[offset + i := vm]"
  from Cons.prems have lt: "offset + i < length vms" by simp
  from Cons.prems have "offset + Suc i + length chunk \<le> length ?vms" by simp
  note IH = Cons.IH [OF this]
  have eq: "write_back vms offset i (vm # chunk) = write_back ?vms offset (Suc i) chunk"
    using lt by simp
  show ?case
  proof (intro conjI allI impI)
    show "snd (write_back vms offset i (vm # chunk)) = None"
      using IH eq by simp
    show "length (fst (write_back vms offset i (vm # chunk))) = length vms"
      using IH eq by simp
  next
    fix j assume j: "j < length vms"
    then have "fst (write_back ?vms offset (Suc i) chunk) ! j =
        (if offset + Suc i \<le> j \<and> j < offset + Suc i + length chunk
         then chunk ! (j - (offset + Suc i)) else ?vms ! j)"
      using IH by simp
    then show "fst (write_back vms offset i (vm # chunk)) ! j =
        (if offset + i \<le> j \<and> j < offset + i + length (vm # chunk)
         then (vm # chunk) ! (j - (offset + i)) else vms ! j)"
      unfolding eq using lt j
      by (cases "j = offset + i") (auto simp: nth_Cons' Suc_diff_le)
  qed
qed

lemma chunk_index_less:
  fixes cs :: nat
  assumes "0 < cs"
  shows "k < (len + cs - 1) div cs \<longleftrightarrow> k * cs < len"
proof -
  have "k < (len + cs - 1) div cs \<longleftrightarrow> Suc k \<le> (len + cs - 1) div cs" by auto
  also have "\<dots> \<longleftrightarrow> Suc k * cs \<le> len + cs - 1"
    using assms by (simp only: less_eq_div_iff_mult_less_eq)
  also have "\<dots> \<longleftrightarrow> k * cs < len"
    using assms by auto
  finally show ?thesis .
qed

lemma make_chunks_Inr:
  assumes "make_chunks cs vms = Inr chunks"
  shows "0 < cs" and "chunks = map (\<lambda>k. take cs (drop (k * cs) vms)) [0..<(length vms + cs - 1) div cs]"
  using assms by (auto simp: make_chunks_def py_range_def comp_def split: if_splits)

lemma make_chunks_ok:
  "0 < cs \<Longrightarrow> \<exists>chunks. make_chunks cs vms = Inr chunks"
  by (simp add: make_chunks_def py_range_def)

lemma chunk_facts:
  assumes ch: "make_chunks cs vms = Inr chunks" and k: "k < length chunks"
  shows "chunks ! k = take cs (drop (k * cs) vms)"
    and "k * cs < length vms"
    and "k * cs + length (chunks ! k) \<le> length vms"
proof -
  note cs = make_chunks_Inr(1) [OF ch] and eq = make_chunks_Inr(2) [OF ch]
  from k eq have k': "k < (length vms + cs - 1) div cs" by simp
  then show 1: "chunks ! k = take cs (drop (k * cs) vms)"
    by (simp add: eq)
  from k' show 2: "k * cs < length vms"
    by (simp only: chunk_index_less [OF cs])
  show "k * cs + length (chunks ! k) \<le> length vms"
    using 2 by (simp add: 1)
qed

lemma chunk_of_index:
  assumes ch: "make_chunks cs vms = Inr chunks" and j: "j < length vms"
  shows "j div cs < length chunks"
    and "j mod cs < length (chunks ! (j div cs))"
    and "chunks ! (j div cs) ! (j mod cs) = vms ! j"
proof -
  note cs = make_chunks_Inr(1) [OF ch] and eq = make_chunks_Inr(2) [OF ch]
  have le: "j div cs * cs \<le> j" by simp
  from le j have "j div cs * cs < length vms" by (rule le_less_trans)
  then have "j div cs < (length vms + cs - 1) div cs"
    by (simp only: chunk_index_less [OF cs])
  then show 1: "j div cs < length chunks" by (simp add: eq)
  note c = chunk_facts(1) [OF ch 1]
  have split: "j div cs * cs + j mod cs = j" by simp
  have m: "j mod cs < cs" using cs by simp
  have "j mod cs < length vms - j div cs * cs"
    using j split by linarith
  then show "j mod cs < length (chunks ! (j div cs))"
    using m by (simp add: c)
  have "drop (j div cs * cs) vms ! (j mod cs) = vms ! (j div cs * cs + j mod cs)"
    using le j by (intro nth_drop) linarith
  then have "drop (j div cs * cs) vms ! (j mod cs) = vms ! j"
    by (simp only: split)
  then show "chunks ! (j div cs) ! (j mod cs) = vms ! j"
    using m by (simp add: c)
qed

lemma chunk_range:
  fixes cs :: nat
  assumes ch: "make_chunks cs vms = Inr chunks" and k: "k < length chunks" and j: "j < length vms"
  shows "(k * cs \<le> j \<and> j < k * cs + length (chunks ! k)) \<longleftrightarrow> j div cs = k"
proof -
  note cs = make_chunks_Inr(1) [OF ch]
  note c = chunk_facts(1) [OF ch k]
  have len: "length (chunks ! k) = min cs (length vms - k * cs)"
    by (simp add: c)
  have "(k * cs \<le> j \<and> j < k * cs + length (chunks ! k)) \<longleftrightarrow> (k * cs \<le> j \<and> j < k * cs + cs)"
    using j unfolding len by auto
  also have "\<dots> \<longleftrightarrow> (k * cs \<le> j \<and> j < Suc k * cs)"
    by (simp add: add.commute)
  also have "\<dots> \<longleftrightarrow> (k \<le> j div cs \<and> j div cs < Suc k)"
    using cs by (simp only: less_eq_div_iff_mult_less_eq div_less_iff_less_mult)
  also have "\<dots> \<longleftrightarrow> j div cs = k" by auto
  finally show ?thesis .
qed

lemma task_step:
  assumes ch: "make_chunks cs vms = Inr chunks" and k: "k < length chunks"
    and len: "length acc = length vms"
  shows "length (fst (compute_metrics_for_chunk run_if cs (chunks ! k) k acc)) = length vms \<and>
     (\<forall>j<length vms. fst (compute_metrics_for_chunk run_if cs (chunks ! k) k acc) ! j =
        (if j div cs = k
         then (case run_if k (chunks ! k) of
                 Inl e \<Rightarrow> acc ! j
               | Inr if_out \<Rightarrow> fst (parse_if_output if_out (chunks ! k) k) ! (j mod cs))
         else acc ! j))"
proof (cases "run_if k (chunks ! k)")
  case (Inl e)
  then show ?thesis
    by (simp add: compute_metrics_for_chunk_def len)
next
  case (Inr if_out)
  define chunk' where "chunk' = fst (parse_if_output if_out (chunks ! k) k)"
  have l': "length chunk' = length (chunks ! k)"
    by (simp add: chunk'_def parse_if_output_length)
  have res: "fst (compute_metrics_for_chunk run_if cs (chunks ! k) k acc) =
      fst (write_back acc (k * cs) 0 chunk')"
    by (simp add: compute_metrics_for_chunk_def Inr chunk'_def split: prod.splits option.splits)
  have "k * cs + 0 + length chunk' \<le> length acc"
    using chunk_facts(3) [OF ch k] by (simp add: l' len)
  note wb = write_back_nth [OF this]
  show ?thesis
  proof (intro conjI allI impI)
    show "length (fst (compute_metrics_for_chunk run_if cs (chunks ! k) k acc)) = length vms"
      using wb by (simp add: res len)
  next
    fix j assume j: "j < length vms"
    have r: "(k * cs \<le> j \<and> j < k * cs + length chunk') \<longleftrightarrow> j div cs = k"
      unfolding l' by (rule chunk_range [OF ch k j])
    have "fst (write_back acc (k * cs) 0 chunk') ! j =
        (if k * cs + 0 \<le> j \<and> j < k * cs + 0 + length chunk' then chunk' ! (j - (k * cs + 0))
         else acc ! j)"
      using wb j len by simp
    also have "\<dots> = (if j div cs = k then chunk' ! (j - k * cs) else acc ! j)"
      using r by simp
    also have "\<dots> = (if j div cs = k then chunk' ! (j mod cs) else acc ! j)"
      by (auto simp: minus_div_mult_eq_mod [symmetric])
    finally show "fst (compute_metrics_for_chunk run_if cs (chunks ! k) k acc) ! j =
        (if j div cs = k
         then (case run_if k (chunks ! k) of
                 Inl e \<Rightarrow> acc ! j
               | Inr if_out \<Rightarrow> fst (parse_if_output if_out (chunks ! k) k) ! (j mod cs))
         else acc ! j)"
      by (simp add: res Inr chunk'_def)
  qed
qed

lemma workers_done_step:
  assumes ch: "make_chunks cs vms = Inr chunks" and k: "k < length chunks"
    and I: "workers_done run_if cs chunks vms D acc"
  shows "workers_done run_if cs chunks vms (insert k D)
           (fst (compute_metrics_for_chunk run_if cs (chunks ! k) k acc))"
proof -
  from I have len: "length acc = length vms"
    and nth: "\<And>j. j < length vms \<Longrightarrow> acc ! j =
        (if j div cs \<in> D then process_chunk run_if (j div cs) (chunks ! (j div cs)) ! (j mod cs)
         else vms ! j)"
    unfolding workers_done_def by simp_all
  note st = task_step [OF ch k len, of run_if]
  show ?thesis
    unfolding workers_done_def
  proof (intro conjI allI impI)
    show "length (fst (compute_metrics_for_chunk run_if cs (chunks ! k) k acc)) = length vms"
      using st by (rule conjunct1)
  next
    fix j assume j: "j < length vms"
    note e = st [THEN conjunct2, rule_format, OF j]
    show "fst (compute_metrics_for_chunk run_if cs (chunks ! k) k acc) ! j =
        (if j div cs \<in> insert k D
         then process_chunk run_if (j div cs) (chunks ! (j div cs)) ! (j mod cs)
         else vms ! j)"
    proof (cases "j div cs = k")
      case False
      then show ?thesis
        using e nth [OF j] by simp
    next
      case True
      show ?thesis
      proof (cases "run_if k (chunks ! k)")
        case (Inr if_out)
        then show ?thesis
          using e True by (simp add: process_chunk_def)
      next
        case (Inl err)
        have "process_chunk run_if k (chunks ! k) ! (j mod cs) = vms ! j"
          using chunk_of_index(3) [OF ch j] True Inl by (simp add: process_chunk_def)
        then show ?thesis
          using e True Inl nth [OF j] by simp
      qed
    qed
  qed
qed

lemma workers_done_fold:
  assumes ch: "make_chunks cs vms = Inr chunks"
  shows "set order \<subseteq> {0..<length chunks} \<Longrightarrow> workers_done run_if cs chunks vms D acc \<Longrightarrow>
     workers_done run_if cs chunks vms (D \<union> set order)
       (fold (\<lambda>index acc. fst (compute_metrics_for_chunk run_if cs (chunks ! index) index acc))
          order acc)"
proof (induction order arbitrary: D acc)
  case Nil
  then show ?case by simp
next
  case (Cons k order)
  from Cons.prems(1) have k: "k < length chunks" and sub: "set order \<subseteq> {0..<length chunks}"
    by simp_all
  note s = workers_done_step [OF ch k Cons.prems(2)]
  from Cons.IH [OF sub s] show ?case
    by simp
qed

lemma workers_done_start: "workers_done run_if cs chunks vms {} vms"
  by (simp add: workers_done_def)

lemma run_engine_result:
  assumes ne: "vms \<noteq> []" and p: "0 < profile_chunk_size"
    and ch: "make_chunks (min profile_chunk_size (length vms)) vms = Inr chunks"
    and ord: "set completion_order = {0..<length chunks}"
  shows "\<exists>out. run_engine run_if profile_chunk_size completion_order vms = Inr out \<and>
           length out = length vms \<and>
           (\<forall>i<length vms.
              out ! i = process_chunk run_if (i div min profile_chunk_size (length vms))
                          (chunks ! (i div min profile_chunk_size (length vms)))
                        ! (i mod min profile_chunk_size (length vms)))"
proof -
  define cs where "cs = min profile_chunk_size (length vms)"
  define out where "out = fold (\<lambda>index acc.
      fst (compute_metrics_for_chunk run_if cs (chunks ! index) index acc)) completion_order vms"
  have ch': "make_chunks cs vms = Inr chunks"
    using ch by (simp only: cs_def)
  have run: "run_engine run_if profile_chunk_size completion_order vms = Inr out"
    using ch by (simp add: run_engine_def Let_def out_def cs_def)
  have sub: "set completion_order \<subseteq> {0..<length chunks}"
    using ord by simp
  have "workers_done run_if cs chunks vms ({} \<union> set completion_order) out"
    unfolding out_def by (rule workers_done_fold [OF ch' sub workers_done_start])
  then have wd: "workers_done run_if cs chunks vms {0..<length chunks} out"
    using ord by simp
  then have len: "length out = length vms"
    unfolding workers_done_def by (rule conjunct1)
  have nth: "out ! i = process_chunk run_if (i div cs) (chunks ! (i div cs)) ! (i mod cs)"
    if i: "i < length vms" for i
  proof -
    have "i div cs \<in> {0..<length chunks}"
      using chunk_of_index(1) [OF ch' i] by simp
    then show ?thesis
      using wd [unfolded workers_done_def, THEN conjunct2, rule_format, OF i] by simp
  qed
  show ?thesis
    using run len nth unfolding cs_def by blast
qed

text \<open>The same for the two profiles, whose chunk sizes are 430 and 10000.\<close>

lemma IFVMService_run_engine_order:
  assumes "vms \<noteq> []"
    and "make_chunks (min 430 (length vms)) vms = Inr chunks"
    and "set completion_order = {0..<length chunks}"
  shows "\<exists>out. IFVMService_run_engine run_if completion_order vms = Inr out \<and>
           length out = length vms \<and>
           (\<forall>i<length vms.
              out ! i = process_chunk run_if (i div min 430 (length vms))
                          (chunks ! (i div min 430 (length vms)))
                        ! (i mod min 430 (length vms)))"
  unfolding IFVMService_run_engine_def
  using assms(1) _ assms(2,3) by (rule run_engine_result) simp

lemma IFStorageService_run_engine_order:
  assumes "storage_resources \<noteq> []"
    and "make_chunks (min 10000 (length storage_resources)) storage_resources = Inr chunks"
    and "set completion_order = {0..<length chunks}"
  shows "\<exists>out. IFStorageService_run_engine run_if completion_order storage_resources = Inr out \<and>
           length out = length storage_resources \<and>
           (\<forall>i<length storage_resources.
              out ! i = process_chunk run_if (i div min 10000 (length storage_resources))
                          (chunks ! (i div min 10000 (length storage_resources)))
                        ! (i mod min 10000 (length storage_resources)))"
  unfolding IFStorageService_run_engine_def
  using assms(1) _ assms(2,3) by (rule run_engine_result) simp

lemma process_chunk_obj_id:
  "map obj_id (process_chunk run_if k chunk) = map obj_id chunk"
  by (simp add: process_chunk_def parse_if_output_obj_id split: sum.splits)

lemma process_chunk_nth_obj_id:
  assumes "j < length chunk"
  shows "obj_id (process_chunk run_if k chunk ! j) = obj_id (chunk ! j)"
proof -
  have "map obj_id (process_chunk run_if k chunk) ! j = map obj_id chunk ! j"
    by (simp only: process_chunk_obj_id)
  then show ?thesis
    using assms by (simp add: process_chunk_length)
qed

lemma process_chunk_ok:
  assumes "run_if k chunk = Inr if_out" and "snd (parse_if_output if_out chunk k) = None"
  shows "process_chunk run_if k chunk = map (process_resource (tree_children if_out)) chunk"
proof -
  have "parse_if_output if_out chunk k = (fst (parse_if_output if_out chunk k), None)"
    using assms(2) by (simp add: prod_eq_iff)
  then have "fst (parse_if_output if_out chunk k) = map (process_resource (tree_children if_out)) chunk"
    by (rule parse_if_output_ok)
  then show ?thesis
    using assms(1) by (simp add: process_chunk_def)
qed

text \<open>
  C7: for every non-empty list of resources and every positive chunk size of the profile
  (430 for the VM profile, 10000 for the Storage profile), in whatever order the workers
  of the chunks run, \<open>run_engine\<close> returns a list of the length of the input in which the
  element at index i has the id of the input element at index i and is element
  i mod chunk_size of chunk i div chunk_size as its worker left it, written back at
  offset (i div chunk_size) * chunk_size + i mod chunk_size; when the evaluator and the
  parse of that chunk succeed, it is the input element at index i with the metrics of
  the evaluator output mapped onto it.
\<close>

theorem run_engine_preserves_order:
  assumes ne: "vms \<noteq> []" and p: "0 < profile_chunk_size"
    and ch: "make_chunks (min profile_chunk_size (length vms)) vms = Inr chunks"
    and dist: "distinct completion_order"
    and ord: "set completion_order = {0..<length chunks}"
  shows "\<exists>out. run_engine run_if profile_chunk_size completion_order vms = Inr out \<and>
           length out = length vms \<and>
           (\<forall>i<length vms.
              obj_id (out ! i) = obj_id (vms ! i) \<and>
              out ! i = process_chunk run_if (i div min profile_chunk_size (length vms))
                          (chunks ! (i div min profile_chunk_size (length vms)))
                        ! (i mod min profile_chunk_size (length vms)) \<and>
              (\<forall>if_out.
                 run_if (i div min profile_chunk_size (length vms))
                   (chunks ! (i div min profile_chunk_size (length vms))) = Inr if_out \<and>
                 snd (parse_if_output if_out
                        (chunks ! (i div min profile_chunk_size (length vms)))
                        (i div min profile_chunk_size (length vms))) = None \<longrightarrow>
                 out ! i = process_resource (tree_children if_out) (vms ! i)))"
proof -
  define cs where "cs = min profile_chunk_size (length vms)"
  have ch': "make_chunks cs vms = Inr chunks"
    using ch by (simp only: cs_def)
  from run_engine_result [OF ne p ch ord, of run_if] obtain out where
    run: "run_engine run_if profile_chunk_size completion_order vms = Inr out"
    and len: "length out = length vms"
    and nth: "\<And>i. i < length vms \<Longrightarrow>
        out ! i = process_chunk run_if (i div cs) (chunks ! (i div cs)) ! (i mod cs)"
    unfolding cs_def by blast
  have id: "obj_id (out ! i) = obj_id (vms ! i)" if i: "i < length vms" for i
    using process_chunk_nth_obj_id [OF chunk_of_index(2) [OF ch' i], of run_if "i div cs"]
    by (simp only: nth [OF i] chunk_of_index(3) [OF ch' i])
  have ok: "out ! i = process_resource (tree_children if_out) (vms ! i)"
    if i: "i < length vms" and r: "run_if (i div cs) (chunks ! (i div cs)) = Inr if_out"
      and s: "snd (parse_if_output if_out (chunks ! (i div cs)) (i div cs)) = None"
    for i if_out
  proof -
    have "out ! i = map (process_resource (tree_children if_out)) (chunks ! (i div cs)) ! (i mod cs)"
      by (simp only: nth [OF i]
          process_chunk_ok [of run_if "i div cs" "chunks ! (i div cs)" if_out, OF r s])
    also have "\<dots> = process_resource (tree_children if_out) (chunks ! (i div cs) ! (i mod cs))"
      using chunk_of_index(2) [OF ch' i] by (rule nth_map)
    finally show ?thesis
      by (simp only: chunk_of_index(3) [OF ch' i])
  qed
  show ?thesis
  proof (intro exI [of _ out] conjI allI impI)
    show "run_engine run_if profile_chunk_size completion_order vms = Inr out" by (rule run)
    show "length out = length vms" by (rule len)
  next
    fix i assume "i < length vms"
    then show "obj_id (out ! i) = obj_id (vms ! i)" by (rule id)
  next
    fix i assume "i < length vms"
    then show "out ! i = process_chunk run_if (i div min profile_chunk_size (length vms))
                          (chunks ! (i div min profile_chunk_size (length vms)))
                        ! (i mod min profile_chunk_size (length vms))"
      using nth unfolding cs_def by simp
  next
    fix i if_out
    assume i: "i < length vms"
      and "run_if (i div min profile_chunk_size (length vms))
                   (chunks ! (i div min profile_chunk_size (length vms))) = Inr if_out \<and>
                 snd (parse_if_output if_out
                        (chunks ! (i div min profile_chunk_size (length vms)))
                        (i div min profile_chunk_size (length vms))) = None"
    then have "run_if (i div cs) (chunks ! (i div cs)) = Inr if_out"
      and "snd (parse_if_output if_out (chunks ! (i div cs)) (i div cs)) = None"
      unfolding cs_def by simp_all
    with i show "out ! i = process_resource (tree_children if_out) (vms ! i)"
      by (rule ok)
  qed
qed

text \<open>
  C10: on the empty list the \<open>run_engine\<close> of the VM profile and that of the Storage
  profile raise ValueError and return no list: the chunk size is min(430, 0) = 0,
  respectively min(10000, 0) = 0, and a range with step 0 is invalid. This is so for
  every evaluator and every order of workers: none is reached.
\<close>

theorem run_engine_empty_input:
  "IFVMService_run_engine run_if completion_order [] =
     Inl (ValueError ''range() arg 3 must not be zero'') \<and>
   IFStorageService_run_engine run_if completion_order [] =
     Inl (ValueError ''range() arg 3 must not be zero'')"
  by (simp add: IFVMService_run_engine_def IFStorageService_run_engine_def run_engine_def
      make_chunks_def py_range_def)



text \<open>
  The exception of a worker stays in its future: when the evaluator reports a status
  other than "success" for every chunk, \<open>run_engine\<close> returns the list unchanged.
\<close>

lemma run_engine_failed_status_swallowed:
  assumes ne: "vms \<noteq> []" and p: "0 < profile_chunk_size"
    and ch: "make_chunks (min profile_chunk_size (length vms)) vms = Inr chunks"
    and ord: "set completion_order = {0..<length chunks}"
    and failed: "\<And>k chunk. \<exists>if_out. run_if k chunk = Inr if_out \<and> execution_status if_out \<noteq> ''success''"
  shows "run_engine run_if profile_chunk_size completion_order vms = Inr vms"
proof -
  define cs where "cs = min profile_chunk_size (length vms)"
  have ch': "make_chunks cs vms = Inr chunks"
    using ch by (simp only: cs_def)
  from run_engine_result [OF ne p ch ord, of run_if] obtain out where
    run: "run_engine run_if profile_chunk_size completion_order vms = Inr out"
    and len: "length out = length vms"
    and nth: "\<And>i. i < length vms \<Longrightarrow>
        out ! i = process_chunk run_if (i div cs) (chunks ! (i div cs)) ! (i mod cs)"
    unfolding cs_def by blast
  have pc: "process_chunk run_if k chunk = chunk" for k chunk
  proof -
    from failed [of k chunk] obtain if_out where
      "run_if k chunk = Inr if_out" "execution_status if_out \<noteq> ''success''" by blast
    then show ?thesis
      by (simp add: process_chunk_def parse_if_output_def)
  qed
  have "out = vms"
  proof (rule nth_equalityI)
    show "length out = length vms" by (rule len)
  next
    fix i assume "i < length out"
    then have i: "i < length vms" by (simp only: len)
    show "out ! i = vms ! i"
      by (simp only: nth [OF i] pc chunk_of_index(3) [OF ch' i])
  qed
  then show ?thesis using run by simp
qed

lemmas if_eval_defs =
  process_chunk_def sample_run_if_def parse_if_output_def get_measurements_from_output_def
  dict_item_def dict_set_def modify_item_def round4_def round_half_even_def
  map_metrics_to_resource_def METRICS_MAPPER_def setattr_def getattr_def
  VirtualMachine_obj_def compute_resource_fields_def resource_fields_def Let_def

lemma sample_chunks:
  "make_chunks (min 2 (length sample_vms)) sample_vms =
     Inr [map VirtualMachine_obj [''a'', ''b''], map VirtualMachine_obj [''c'', ''d''],
          map VirtualMachine_obj [''e'']]"
proof -
  have len: "length sample_vms = 5"
    by (simp add: sample_vms_def)
  have n: "(length sample_vms + min 2 (length sample_vms) - 1) div min 2 (length sample_vms) = 3"
    unfolding len by simp
  have u: "[0..<3] = [0, 1, 2 :: nat]"
    by (simp add: eval_nat_numeral)
  have m: "min 2 (length sample_vms) = 2"
    unfolding len by simp
  show ?thesis
    unfolding make_chunks_def py_range_def n u unfolding m
    by (simp add: sample_vms_def)
qed

text \<open>
  C7 on five VMs in chunks of two, the workers running in the order 2, 0, 1: every VM
  keeps its place and carries the carbon value of its chunk.
\<close>

theorem run_engine_preserves_order_witness:
  "\<exists>out. run_engine sample_run_if 2 [2, 0, 1] sample_vms = Inr out \<and> length out = 5 \<and>
     obj_id (out ! 0) = ''a'' \<and> getattr (out ! 0) ''total_carbon_emitted'' = Some (Float 0) \<and>
     obj_id (out ! 1) = ''b'' \<and> getattr (out ! 1) ''total_carbon_emitted'' = Some (Float 0) \<and>
     obj_id (out ! 2) = ''c'' \<and> getattr (out ! 2) ''total_carbon_emitted'' = Some (Float 1) \<and>
     obj_id (out ! 3) = ''d'' \<and> getattr (out ! 3) ''total_carbon_emitted'' = Some (Float 1) \<and>
     obj_id (out ! 4) = ''e'' \<and> getattr (out ! 4) ''total_carbon_emitted'' = Some (Float 2) \<and>
     getattr (out ! 4) ''carbon_emitted'' = Some (FloatList [Some 2])"
proof -
  let ?chunks = "[map VirtualMachine_obj [''a'', ''b''], map VirtualMachine_obj [''c'', ''d''],
          map VirtualMachine_obj [''e'']]"
  have ne: "sample_vms \<noteq> []" by (simp add: sample_vms_def)
  have p: "0 < (2 :: nat)" by simp
  have dist: "distinct [2, 0, 1 :: nat]" by simp
  have ord: "set [2, 0, 1 :: nat] = {0..<length ?chunks}" by auto
  have len: "length sample_vms = 5" by (simp add: sample_vms_def)
  from run_engine_preserves_order [OF ne p sample_chunks dist ord, of sample_run_if]
  obtain out where run: "run_engine sample_run_if 2 [2, 0, 1] sample_vms = Inr out"
    and l: "length out = length sample_vms"
    and nth: "\<And>i. i < length sample_vms \<Longrightarrow>
        obj_id (out ! i) = obj_id (sample_vms ! i) \<and>
        out ! i = process_chunk sample_run_if (i div min 2 (length sample_vms))
                    (?chunks ! (i div min 2 (length sample_vms)))
                  ! (i mod min 2 (length sample_vms))"
    by blast
  have i0: "out ! 0 = process_chunk sample_run_if 0 (map VirtualMachine_obj [''a'', ''b'']) ! 0"
    using nth [of 0] by (simp add: len)
  have i1: "out ! 1 = process_chunk sample_run_if 0 (map VirtualMachine_obj [''a'', ''b'']) ! 1"
    using nth [of 1] by (simp add: len)
  have i2: "out ! 2 = process_chunk sample_run_if 1 (map VirtualMachine_obj [''c'', ''d'']) ! 0"
    using nth [of 2] by (simp add: len)
  have i3: "out ! 3 = process_chunk sample_run_if 1 (map VirtualMachine_obj [''c'', ''d'']) ! 1"
    using nth [of 3] by (simp add: len)
  have i4: "out ! 4 = process_chunk sample_run_if 2 (map VirtualMachine_obj [''e'']) ! 0"
    using nth [of 4] by (simp add: len)
  have ids: "obj_id (out ! 0) = ''a''" "obj_id (out ! 1) = ''b''" "obj_id (out ! 2) = ''c''"
    "obj_id (out ! 3) = ''d''" "obj_id (out ! 4) = ''e''"
    using nth [of 0, THEN conjunct1] nth [of 1, THEN conjunct1] nth [of 2, THEN conjunct1]
      nth [of 3, THEN conjunct1] nth [of 4, THEN conjunct1]
    by (simp_all add: len) (simp_all add: sample_vms_def VirtualMachine_obj_def)
  have v0: "getattr (out ! 0) ''total_carbon_emitted'' = Some (Float 0)"
    unfolding i0 by (simp add: if_eval_defs)
  have v1: "getattr (out ! 1) ''total_carbon_emitted'' = Some (Float 0)"
    unfolding i1 by (simp add: if_eval_defs)
  have v2: "getattr (out ! 2) ''total_carbon_emitted'' = Some (Float 1)"
    unfolding i2 by (simp add: if_eval_defs)
  have v3: "getattr (out ! 3) ''total_carbon_emitted'' = Some (Float 1)"
    unfolding i3 by (simp add: if_eval_defs)
  have v4: "getattr (out ! 4) ''total_carbon_emitted'' = Some (Float 2)"
    unfolding i4 by (simp add: if_eval_defs)
  have w4: "getattr (out ! 4) ''carbon_emitted'' = Some (FloatList [Some 2])"
    unfolding i4 by (simp add: if_eval_defs)
  show ?thesis
    using run l ids v0 v1 v2 v3 v4 w4 by (intro exI [of _ out]) (simp add: len)
qed


end
